theory Spec2Isabelle
  imports Complex_Main
begin

section \<open>Python values\<close>

text \<open>
  The service of \<^verbatim>\<open>main.py\<close> moves JSON values between the inference backend and its
  callers. A value is what \<^verbatim>\<open>json.loads\<close> builds: \<^verbatim>\<open>None\<close>, a bool, an int, a float, a
  str, a list or a dict with str keys. A dict is an association list in insertion order
  with distinct keys. Text is a list of characters, one \<^typ>\<open>char\<close> per code point, so the
  model covers text whose code points are below 256.

  A float is kept as the decimal it was read from: \<open>Dec neg d k\<close> is the double nearest
  to \<open>(-1)^neg * d * 10^k\<close>. The program never computes with floats; it only asks
  whether one is zero.
\<close>

datatype pyfloat = Dec bool nat int | Inf bool | NaN

datatype json =
    JNull
  | JBool bool
  | JInt int
  | JFloat pyfloat
  | JStr string
  | JArr "json list"
  | JObj "(string \<times> json) list"

text \<open>
  The exceptions the program raises, catches or lets through. \<open>RequestError\<close> stands for
  the \<^verbatim>\<open>httpx.RequestError\<close>s that are neither a timeout nor a connection failure.
  \<open>HTTPException\<close> carries its status code; the detail text is not modelled.
\<close>

datatype exc =
    TimeoutException
  | ConnectError
  | RequestError
  | HTTPException nat
  | JSONDecodeError
  | ValueError
  | AttributeError
  | TypeError
  | RecursionError

text \<open>
  A double read from \<open>d * 10^k\<close> is zero exactly when the decimal is at most half the
  smallest subnormal, \<open>2^-1075\<close> (the tie rounds to the even neighbour, zero).
\<close>

fun float_is_zero :: "pyfloat \<Rightarrow> bool" where
  "float_is_zero (Dec neg d k) = (d = 0 \<or> (k < 0 \<and> d * 2 ^ 1075 \<le> 10 ^ nat (- k)))"
| "float_is_zero (Inf neg) = False"
| "float_is_zero NaN = False"

text \<open>Python's truth value of a JSON value (\<^verbatim>\<open>if x:\<close>, \<^verbatim>\<open>x or y\<close>).\<close>

fun truthy :: "json \<Rightarrow> bool" where
  "truthy JNull = False"
| "truthy (JBool b) = b"
| "truthy (JInt i) = (i \<noteq> 0)"
| "truthy (JFloat f) = (\<not> float_is_zero f)"
| "truthy (JStr s) = (s \<noteq> [])"
| "truthy (JArr xs) = (xs \<noteq> [])"
| "truthy (JObj kvs) = (kvs \<noteq> [])"

text \<open>\<^verbatim>\<open>x.get(key, default)\<close>: only a dict has the method.\<close>

fun dict_get :: "json \<Rightarrow> string \<Rightarrow> json \<Rightarrow> exc + json" where
  "dict_get (JObj kvs) k d = Inr (case map_of kvs k of None \<Rightarrow> d | Some v \<Rightarrow> v)"
| "dict_get v k d = Inl AttributeError"

fun is_dict :: "json \<Rightarrow> bool" where
  "is_dict (JObj kvs) = True"
| "is_dict v = False"

fun is_str :: "json \<Rightarrow> bool" where
  "is_str (JStr s) = True"
| "is_str v = False"

fun the_str :: "json \<Rightarrow> string" where
  "the_str (JStr s) = s"
| "the_str v = []"

text \<open>
  What \<^verbatim>\<open>', '.join(x)\<close> and \<^verbatim>\<open>for skill in x\<close> walk over: the items of a list, the
  characters of a str, the keys of a dict. \<^verbatim>\<open>join\<close> raises \<^verbatim>\<open>TypeError\<close> on a value that
  is not iterable and on an item that is not a str.
\<close>

fun py_iter_strs :: "json \<Rightarrow> exc + string list" where
  "py_iter_strs (JArr xs) = (if list_all is_str xs then Inr (map the_str xs) else Inl TypeError)"
| "py_iter_strs (JStr s) = Inr (map (\<lambda>c. [c]) s)"
| "py_iter_strs (JObj kvs) = Inr (map fst kvs)"
| "py_iter_strs v = Inl TypeError"

fun join :: "string \<Rightarrow> string list \<Rightarrow> string" where
  "join sep [] = []"
| "join sep [x] = x"
| "join sep (x # y # ys) = x @ sep @ join sep (y # ys)"

section \<open>String operations\<close>

text \<open>\<^verbatim>\<open>str.isspace\<close> on the code points below 256, which \<^verbatim>\<open>str.strip()\<close> removes.\<close>

definition py_isspace :: "char \<Rightarrow> bool" where
  "py_isspace c = (let n = (of_char c :: nat) in
     (9 \<le> n \<and> n \<le> 13) \<or> (28 \<le> n \<and> n \<le> 32) \<or> n = 133 \<or> n = 160)"

definition py_strip :: "string \<Rightarrow> string" where
  "py_strip s = rev (dropWhile py_isspace (rev (dropWhile py_isspace s)))"

definition startswith :: "string \<Rightarrow> string \<Rightarrow> bool" where
  "startswith s p = (take (length p) s = p)"

definition endswith :: "string \<Rightarrow> string \<Rightarrow> bool" where
  "endswith s p = (length p \<le> length s \<and> drop (length s - length p) s = p)"

text \<open>\<^verbatim>\<open>s.find(c)\<close> and \<^verbatim>\<open>s.rfind(c)\<close>: the first and the last index of \<open>c\<close>, or -1.\<close>

fun py_find :: "string \<Rightarrow> char \<Rightarrow> int" where
  "py_find [] c = - 1"
| "py_find (x # xs) c =
     (if x = c then 0 else (let i = py_find xs c in if i = - 1 then - 1 else i + 1))"

definition py_rfind :: "string \<Rightarrow> char \<Rightarrow> int" where
  "py_rfind s c = (let i = py_find (rev s) c in if i = - 1 then - 1 else int (length s) - 1 - i)"

text \<open>\<^verbatim>\<open>s[i:j]\<close> for indices that are not negative.\<close>

definition slice :: "string \<Rightarrow> int \<Rightarrow> int \<Rightarrow> string" where
  "slice s i j = take (nat j - nat i) (drop (nat i) s)"

section \<open>The response extractor\<close>

text \<open>
  The brace search of lines 137-143 of \<^verbatim>\<open>analyze_skills\<close>; the same lines stand at
  209-215, 275-281, 320-326 and 428-434.
\<close>

definition json_candidate :: "string \<Rightarrow> string" where
  "json_candidate analysis_text =
     (let first_brace = py_find analysis_text (CHR ''{'');
          last_brace = py_rfind analysis_text (CHR ''}'')
      in if first_brace \<noteq> - 1 \<and> last_brace \<noteq> - 1 \<and> last_brace > first_brace
         then slice analysis_text first_brace (last_brace + 1)
         else analysis_text)"

text \<open>
  Two predicates for the statements about the brace search: a text free of braces, and
  the test of line 140 that decides whether a slice is cut.
\<close>

definition brace_free :: "string \<Rightarrow> bool" where
  "brace_free s = (CHR ''{'' \<notin> set s \<and> CHR ''}'' \<notin> set s)"

definition has_brace_pair :: "string \<Rightarrow> bool" where
  "has_brace_pair t =
     (py_find t (CHR ''{'') \<noteq> - 1 \<and> py_rfind t (CHR ''}'') \<noteq> - 1 \<and>
      py_rfind t (CHR ''}'') > py_find t (CHR ''{''))"

text \<open>
  \<^verbatim>\<open>json.loads\<close> belongs to the standard library, not to this repository, so the
  extractor takes it as a parameter: a function from text to a value or an exception.
\<close>

type_synonym loads = "string \<Rightarrow> exc + json"

text \<open>
  The extraction of one field under \<^verbatim>\<open>try: ... except Exception:\<close>, as
  \<^verbatim>\<open>_extract_skills_from_resume\<close> (lines 208-220), the missing-skills stage (274-286) and
  the two task stages (319-331, 427-439) do it: any exception of the parse or of
  \<^verbatim>\<open>.get\<close> leaves the default.
\<close>

definition extract_field :: "loads \<Rightarrow> string \<Rightarrow> string \<Rightarrow> json \<Rightarrow> json" where
  "extract_field loads analysis_text key dflt =
     (case loads (json_candidate analysis_text) of
        Inl e \<Rightarrow> dflt
      | Inr analysis_json \<Rightarrow>
          (case dict_get analysis_json key dflt of Inl e \<Rightarrow> dflt | Inr v \<Rightarrow> v))"

text \<open>Lines 127-135 of \<^verbatim>\<open>analyze_skills\<close>: the code-fence markers are cut off.\<close>

definition strip_fences :: "string \<Rightarrow> string" where
  "strip_fences t0 =
     (let t1 = py_strip t0;
          t2 = (if startswith t1 ''```json'' then drop 7 t1 else t1);
          t3 = (if startswith t2 ''```'' then drop 3 t2 else t2);
          t4 = (if endswith t3 ''```'' then take (length t3 - 3) t3 else t3)
      in py_strip t4)"

text \<open>
  Lines 126-164 of \<^verbatim>\<open>analyze_skills\<close>. The handler catches \<^verbatim>\<open>json.JSONDecodeError\<close>
  only: the \<^verbatim>\<open>ValueError\<close> of line 148 and any other exception of the parser leave the
  block.
\<close>

definition analyze_parse :: "loads \<Rightarrow> string \<Rightarrow> exc + json" where
  "analyze_parse loads t0 =
     (let analysis_text = strip_fences t0;
          json_str = json_candidate analysis_text
      in case loads json_str of
           Inl e \<Rightarrow>
             (if e = JSONDecodeError
              then Inr (JObj [(''skills'', JArr []),
                              (''years_experience'', JNull),
                              (''role_suggestions'', JArr []),
                              (''error'', JStr ''Failed to parse LLM response as JSON''),
                              (''raw_response'', JStr (take 500 analysis_text))])
              else Inl e)
         | Inr analysis_json \<Rightarrow>
             (if \<not> is_dict analysis_json then Inl ValueError
              else (case dict_get analysis_json ''skills'' (JArr []) of
                      Inl e \<Rightarrow> Inl e
                    | Inr skills \<Rightarrow>
                  (case dict_get analysis_json ''years_experience'' JNull of
                      Inl e \<Rightarrow> Inl e
                    | Inr years \<Rightarrow>
                  (case dict_get analysis_json ''role_suggestions'' (JArr []) of
                      Inl e \<Rightarrow> Inl e
                    | Inr roles \<Rightarrow>
                        Inr (JObj [(''skills'', skills),
                                   (''years_experience'', years),
                                   (''role_suggestions'', roles)]))))))"

section \<open>The fallback generator\<close>

text \<open>The task list of lines 337-345 and 445-453, with its slice \<^verbatim>\<open>[:7]\<close>.\<close>

definition fallback_tasks :: "string \<Rightarrow> string list" where
  "fallback_tasks skill = take 7
     [''Study '' @ skill @ '' fundamentals and core concepts'',
      ''Complete online '' @ skill @ '' tutorial or course'',
      ''Practice '' @ skill @ '' with hands-on exercises'',
      ''Build a small project using '' @ skill,
      ''Read '' @ skill @ '' documentation and best practices'',
      ''Join '' @ skill @ '' community and participate in discussions'',
      ''Create a portfolio piece showcasing '' @ skill]"

definition fallback_group :: "string \<Rightarrow> json" where
  "fallback_group skill =
     JObj [(''skill'', JStr skill), (''tasks'', JArr (map JStr (fallback_tasks skill)))]"

text \<open>
  Lines 333-346 and 441-454: \<^verbatim>\<open>if not weekly_tasks:\<close> appends one group per skill. Only a
  list has \<^verbatim>\<open>append\<close>; on another falsy value the first pass of the loop raises
  \<^verbatim>\<open>AttributeError\<close>.
\<close>

definition backfill :: "json \<Rightarrow> string list \<Rightarrow> exc + json" where
  "backfill weekly_tasks skills =
     (if truthy weekly_tasks then Inr weekly_tasks
      else if skills = [] then Inr weekly_tasks
      else (case weekly_tasks of
              JArr ws \<Rightarrow> Inr (JArr (ws @ map fallback_group skills))
            | _ \<Rightarrow> Inl AttributeError))"

section \<open>Requests, the resume store and the backend\<close>

text \<open>
  The three request models of lines 18-31. \<^verbatim>\<open>missing_skills\<close> is validated as a list, of
  any items.
\<close>

record resume_request =
  resume_text :: "string option"
  resume_id :: "string option"

record skill_analysis_request = resume_request +
  job_description :: "string option"

record skill_gap_analysis_request = resume_request +
  target_role :: string

record weekly_learning_task_request = resume_request +
  missing_skills :: "json list option"

text \<open>
  The resume store maps an identifier to the text of its file. The backend is a state
  machine: a call takes the request sent to \<^verbatim>\<open>/api/generate\<close> and either raises or
  answers with a status code and a body, and moves the backend to its next state. An
  orchestrator returns its outcome together with the state it left the backend in, so
  the calls it made can be read off.
\<close>

type_synonym store = "string \<rightharpoonup> string"

record generate_request =
  prompt :: string
  temperature :: real
  num_predict :: nat

record response =
  status_code :: nat
  response_text :: string

type_synonym 'b backend = "'b \<Rightarrow> generate_request \<Rightarrow> (exc + response) \<times> 'b"

text \<open>
  Lines 79-90, 226-237 and 370-381: the resume comes from the store when
  \<^verbatim>\<open>resume_id\<close> is truthy, else from \<^verbatim>\<open>resume_text\<close> when that is truthy, else the
  request is refused. \<^verbatim>\<open>None\<close> and the empty string are both falsy.
\<close>

definition truthy_str :: "string option \<Rightarrow> bool" where
  "truthy_str x = (case x of None \<Rightarrow> False | Some s \<Rightarrow> s \<noteq> [])"

definition resolve_resume :: "store \<Rightarrow> 'a resume_request_scheme \<Rightarrow> exc + string" where
  "resolve_resume files request =
     (if truthy_str (resume_id request) then
        (case files (the (resume_id request)) of
           None \<Rightarrow> Inl (HTTPException 404)
         | Some contents \<Rightarrow> Inr contents)
      else if truthy_str (resume_text request) then Inr (the (resume_text request))
      else Inl (HTTPException 400))"

text \<open>
  The handlers that close each endpoint (lines 165-174, 353-362, 461-470), in their
  order.
\<close>

fun http_error :: "exc \<Rightarrow> exc" where
  "http_error TimeoutException = HTTPException 504"
| "http_error ConnectError = HTTPException 503"
| "http_error RequestError = HTTPException 503"
| "http_error (HTTPException code) = HTTPException code"
| "http_error e = HTTPException 500"

text \<open>
  \<^verbatim>\<open>result = response.json()\<close> and \<^verbatim>\<open>result.get("response", "").strip()\<close>: the body is
  parsed, and only a str has \<^verbatim>\<open>strip\<close>.
\<close>

definition completion_text :: "loads \<Rightarrow> response \<Rightarrow> exc + string" where
  "completion_text loads resp =
     (case loads (response_text resp) of
        Inl e \<Rightarrow> Inl e
      | Inr result \<Rightarrow>
          (case dict_get result ''response'' (JStr []) of
             Inl e \<Rightarrow> Inl e
           | Inr v \<Rightarrow> (case v of JStr s \<Rightarrow> Inr (py_strip s) | _ \<Rightarrow> Inl AttributeError)))"

section \<open>The prompts\<close>

definition analysis_prompt :: "string \<Rightarrow> string" where
  \<open>analysis_prompt resume =
     ''Analyze this resume and extract information. Return ONLY valid JSON, no other text.\<newline>\<newline>Resume:\<newline>''
     @ resume @
     ''\<newline>\<newline>Return JSON in this exact format:\<newline>{\<newline>  "skills": ["skill1", "skill2", ...],\<newline>  "years_experience": "X years" or null,\<newline>  "role_suggestions": ["role1", "role2", ...]\<newline>}''\<close>

definition skills_prompt :: "string \<Rightarrow> string" where
  \<open>skills_prompt resume =
     ''Analyze this resume and extract skills. Return ONLY valid JSON.\<newline>\<newline>Resume:\<newline>''
     @ resume @
     ''\<newline>\<newline>Return JSON:\<newline>{\<newline>  "skills": ["skill1", "skill2", ...]\<newline>}''\<close>

text \<open>
  The candidate's skills are joined only when the value is truthy; the join raises
  \<^verbatim>\<open>TypeError\<close> on a value it cannot walk.
\<close>

definition gap_prompt :: "json \<Rightarrow> string \<Rightarrow> exc + string" where
  \<open>gap_prompt extracted_skills role =
     (case (if truthy extracted_skills
            then (case py_iter_strs extracted_skills of
                    Inl e \<Rightarrow> Inl e
                  | Inr items \<Rightarrow> Inr (join '', '' items))
            else Inr ''None listed'') of
        Inl e \<Rightarrow> Inl e
      | Inr listed \<Rightarrow> Inr (
          ''Compare the candidate's skills against the target role requirements and identify missing skills.\<newline>\<newline>Candidate's Skills: ''
          @ listed @ ''\<newline>Target Role: '' @ role @
          ''\<newline>\<newline>Return ONLY valid JSON:\<newline>{\<newline>  "missing_skills": ["skill1", "skill2", ...]\<newline>}''))\<close>

definition task_prompt :: "string list \<Rightarrow> string" where
  \<open>task_prompt skills =
     ''Generate 5-7 practical weekly learning tasks for each missing skill. Return ONLY valid JSON.\<newline>\<newline>Missing Skills: ''
     @ join '', '' skills @
     ''\<newline>\<newline>Return JSON:\<newline>{\<newline>  "weekly_tasks": [\<newline>    {"skill": "skill1", "tasks": ["task1", "task2", "task3", "task4", "task5", "task6", "task7"]},\<newline>    {"skill": "skill2", "tasks": ["task1", "task2", "task3", "task4", "task5"]}\<newline>  ]\<newline>}''\<close>

section \<open>The orchestrators\<close>

text \<open>\<^verbatim>\<open>analyze_skills\<close>, lines 77-174.\<close>

definition analyze_skills ::
  "loads \<Rightarrow> 'b backend \<Rightarrow> store \<Rightarrow> skill_analysis_request \<Rightarrow> 'b \<Rightarrow> (exc + json) \<times> 'b" where
  "analyze_skills loads backend files request b0 =
     (case resolve_resume files request of
        Inl e \<Rightarrow> (Inl e, b0)
      | Inr resume \<Rightarrow>
          (case backend b0 \<lparr>prompt = analysis_prompt resume, temperature = 0.3, num_predict = 800\<rparr> of
             (Inl e, b1) \<Rightarrow> (Inl (http_error e), b1)
           | (Inr resp, b1) \<Rightarrow>
               (if status_code resp \<noteq> 200 then (Inl (HTTPException 500), b1)
                else (case completion_text loads resp of
                        Inl e \<Rightarrow> (Inl (http_error e), b1)
                      | Inr analysis_text \<Rightarrow>
                          (case analyze_parse loads analysis_text of
                             Inl e \<Rightarrow> (Inl (http_error e), b1)
                           | Inr result_data \<Rightarrow> (Inr result_data, b1))))))"

text \<open>
  \<^verbatim>\<open>_extract_skills_from_resume\<close>, lines 176-222: every failure, of the call, of the
  status, of the body or of the parse, gives \<^verbatim>\<open>{"skills": []}\<close>.
\<close>

definition extract_skills_from_resume ::
  "loads \<Rightarrow> 'b backend \<Rightarrow> string \<Rightarrow> 'b \<Rightarrow> json \<times> 'b" where
  "extract_skills_from_resume loads backend resume b0 =
     (case backend b0 \<lparr>prompt = skills_prompt resume, temperature = 0.3, num_predict = 600\<rparr> of
        (Inl e, b1) \<Rightarrow> (JObj [(''skills'', JArr [])], b1)
      | (Inr resp, b1) \<Rightarrow>
          (if status_code resp \<noteq> 200 then (JObj [(''skills'', JArr [])], b1)
           else (case completion_text loads resp of
                   Inl e \<Rightarrow> (JObj [(''skills'', JArr [])], b1)
                 | Inr analysis_text \<Rightarrow>
                     (JObj [(''skills'', extract_field loads analysis_text ''skills'' (JArr []))],
                      b1))))"

definition gap_result :: "json \<Rightarrow> json \<Rightarrow> json \<Rightarrow> json" where
  "gap_result extracted_skills missing weekly_tasks =
     JObj [(''extracted_skills'', extracted_skills),
           (''missing_skills'', missing),
           (''weekly_tasks'', weekly_tasks)]"

text \<open>
  The task stage of \<^verbatim>\<open>skill_gap_analysis\<close>, lines 315-346, once the task call has
  answered: a status other than 200 leaves \<^verbatim>\<open>weekly_tasks = []\<close>, and the fallback
  loop fills a falsy \<^verbatim>\<open>weekly_tasks\<close>.
\<close>

definition gap_task_stage :: "loads \<Rightarrow> response \<Rightarrow> string list \<Rightarrow> exc + json" where
  "gap_task_stage loads task_response skills =
     (case (if status_code task_response = 200
            then (case completion_text loads task_response of
                    Inl e \<Rightarrow> Inl e
                  | Inr task_text \<Rightarrow> Inr (extract_field loads task_text ''weekly_tasks'' (JArr [])))
            else Inr (JArr [])) of
        Inl e \<Rightarrow> Inl e
      | Inr weekly_tasks \<Rightarrow> backfill weekly_tasks skills)"

text \<open>\<^verbatim>\<open>skill_gap_analysis\<close>, lines 224-362. The prompt of line 242 is built before the
  \<^verbatim>\<open>try\<close>, so its \<^verbatim>\<open>TypeError\<close> is not turned into an \<^verbatim>\<open>HTTPException\<close>.\<close>

definition skill_gap_analysis ::
  "loads \<Rightarrow> 'b backend \<Rightarrow> store \<Rightarrow> skill_gap_analysis_request \<Rightarrow> 'b \<Rightarrow> (exc + json) \<times> 'b" where
  "skill_gap_analysis loads backend files request b0 =
     (case resolve_resume files request of
        Inl e \<Rightarrow> (Inl e, b0)
      | Inr resume \<Rightarrow>
     (case extract_skills_from_resume loads backend resume b0 of
        (extracted_skills_data, b1) \<Rightarrow>
     (case dict_get extracted_skills_data ''skills'' (JArr []) of
        Inl e \<Rightarrow> (Inl e, b1)
      | Inr extracted_skills \<Rightarrow>
     (case gap_prompt extracted_skills (target_role request) of
        Inl e \<Rightarrow> (Inl e, b1)
      | Inr p \<Rightarrow>
     (case backend b1 \<lparr>prompt = p, temperature = 0.3, num_predict = 600\<rparr> of
        (Inl e, b2) \<Rightarrow> (Inl (http_error e), b2)
      | (Inr resp, b2) \<Rightarrow>
          (if status_code resp \<noteq> 200 then (Inl (HTTPException 500), b2)
           else
     (case completion_text loads resp of
        Inl e \<Rightarrow> (Inl (http_error e), b2)
      | Inr analysis_text \<Rightarrow>
          (let missing = extract_field loads analysis_text ''missing_skills'' (JArr []) in
           if \<not> truthy missing
           then (Inr (gap_result extracted_skills missing (JArr [])), b2)
           else
     (case py_iter_strs missing of
        Inl e \<Rightarrow> (Inl (http_error e), b2)
      | Inr skills \<Rightarrow>
     (case backend b2 \<lparr>prompt = task_prompt skills, temperature = 0.5, num_predict = 1500\<rparr> of
        (Inl e, b3) \<Rightarrow> (Inl (http_error e), b3)
      | (Inr task_response, b3) \<Rightarrow>
          (case gap_task_stage loads task_response skills of
             Inl e \<Rightarrow> (Inl (http_error e), b3)
           | Inr weekly_tasks \<Rightarrow>
               (Inr (gap_result extracted_skills missing weekly_tasks), b3))))))))))))"

text \<open>
  The task stage of \<^verbatim>\<open>weekly_learning_task_generator\<close>, lines 420-454, once the call
  has answered: here a status other than 200 is an error.
\<close>

definition weekly_task_stage :: "loads \<Rightarrow> response \<Rightarrow> string list \<Rightarrow> exc + json" where
  "weekly_task_stage loads resp skills =
     (if status_code resp \<noteq> 200 then Inl (HTTPException 500)
      else (case completion_text loads resp of
              Inl e \<Rightarrow> Inl e
            | Inr analysis_text \<Rightarrow>
                backfill (extract_field loads analysis_text ''weekly_tasks'' (JArr [])) skills))"

text \<open>\<^verbatim>\<open>weekly_learning_task_generator\<close>, lines 364-470. \<^verbatim>\<open>request.missing_skills or []\<close>
  turns an absent list into the empty one; the prompt of line 393 is built before the
  \<^verbatim>\<open>try\<close>.\<close>

definition weekly_learning_task_generator ::
  "loads \<Rightarrow> 'b backend \<Rightarrow> store \<Rightarrow> weekly_learning_task_request \<Rightarrow> 'b \<Rightarrow> (exc + json) \<times> 'b" where
  "weekly_learning_task_generator loads backend files request b0 =
     (let missing = (case missing_skills request of None \<Rightarrow> [] | Some ms \<Rightarrow> ms) in
      if missing = [] then
        (case resolve_resume files request of
           Inl e \<Rightarrow> (Inl e, b0)
         | Inr resume \<Rightarrow>
             (case extract_skills_from_resume loads backend resume b0 of
                (extracted_skills_data, b1) \<Rightarrow>
                  (case dict_get extracted_skills_data ''skills'' (JArr []) of
                     Inl e \<Rightarrow> (Inl e, b1)
                   | Inr extracted_skills \<Rightarrow>
                       (Inr (gap_result extracted_skills (JArr []) (JArr [])), b1))))
      else
        (case py_iter_strs (JArr missing) of
           Inl e \<Rightarrow> (Inl e, b0)
         | Inr skills \<Rightarrow>
             (case backend b0 \<lparr>prompt = task_prompt skills, temperature = 0.5, num_predict = 1500\<rparr> of
                (Inl e, b1) \<Rightarrow> (Inl (http_error e), b1)
              | (Inr resp, b1) \<Rightarrow>
                  (case weekly_task_stage loads resp skills of
                     Inl e \<Rightarrow> (Inl (http_error e), b1)
                   | Inr weekly_tasks \<Rightarrow>
                       (Inr (gap_result (JArr []) (JArr missing) weekly_tasks), b1)))))"

section \<open>A model of the JSON parser\<close>

text \<open>
  The theorems below hold for every parser. Where a concrete completion is run, the
  parser is \<open>json_loads\<close>, which follows the decoder of Python's \<^verbatim>\<open>json\<close> module:
  whitespace is space, tab, line feed and carriage return; a number is
  \<^verbatim>\<open>-?(0|[1-9][0-9]*)(\.[0-9]+)?([eE][-+]?[0-9]+)?\<close>, an int without fraction and
  exponent and a float with one; \<^verbatim>\<open>NaN\<close>, \<^verbatim>\<open>Infinity\<close> and \<^verbatim>\<open>-Infinity\<close> are read;
  a string may not hold a control character; a key given twice keeps its first place
  and its last value; text after the value is an error.

  Two limits of the interpreter are not modelled: its recursion limit on deep nesting
  and its limit on the digits of an int. An escape \<^verbatim>\<open>\uXXXX\<close> above \<^verbatim>\<open>\u00ff\<close> names a
  character this model of text does not have; \<open>json_loads\<close> refuses it, and no
  statement below runs it on such text.
\<close>

definition is_ws :: "char \<Rightarrow> bool" where
  "is_ws c = (c = CHR '' '' \<or> c = CHR 0x09 \<or> c = CHR 0x0A \<or> c = CHR 0x0D)"

definition skip_ws :: "string \<Rightarrow> string" where
  "skip_ws s = dropWhile is_ws s"

definition is_digit :: "char \<Rightarrow> bool" where
  "is_digit c = (let n = (of_char c :: nat) in 48 \<le> n \<and> n \<le> 57)"

definition digits_val :: "string \<Rightarrow> nat" where
  "digits_val ds = foldl (\<lambda>a c. 10 * a + (of_char c - 48)) 0 ds"

definition hex_val :: "char \<Rightarrow> nat option" where
  "hex_val c = (let n = (of_char c :: nat) in
     if 48 \<le> n \<and> n \<le> 57 then Some (n - 48)
     else if 65 \<le> n \<and> n \<le> 70 then Some (n - 55)
     else if 97 \<le> n \<and> n \<le> 102 then Some (n - 87)
     else None)"

definition unescape :: "char \<Rightarrow> char option" where
  "unescape e =
     (if e = CHR 0x22 then Some (CHR 0x22)
      else if e = CHR 0x5C then Some (CHR 0x5C)
      else if e = CHR ''/'' then Some (CHR ''/'')
      else if e = CHR ''b'' then Some (CHR 0x08)
      else if e = CHR ''f'' then Some (CHR 0x0C)
      else if e = CHR ''n'' then Some (CHR 0x0A)
      else if e = CHR ''r'' then Some (CHR 0x0D)
      else if e = CHR ''t'' then Some (CHR 0x09)
      else None)"

definition hex4 :: "char \<Rightarrow> char \<Rightarrow> char \<Rightarrow> char \<Rightarrow> nat option" where
  "hex4 h1 h2 h3 h4 =
     (case (hex_val h1, hex_val h2, hex_val h3, hex_val h4) of
        (Some a, Some b, Some c, Some d) \<Rightarrow> Some (((a * 16 + b) * 16 + c) * 16 + d)
      | _ \<Rightarrow> None)"

definition cons_str :: "char \<Rightarrow> (string \<times> string) option \<Rightarrow> (string \<times> string) option" where
  "cons_str c r = (case r of None \<Rightarrow> None | Some (str, rest) \<Rightarrow> Some (c # str, rest))"

text \<open>The text of a string after its opening quote: the string and what follows it.\<close>

fun scan_string :: "string \<Rightarrow> (string \<times> string) option" where
  "scan_string [] = None"
| "scan_string (c # cs) =
     (if c = CHR 0x22 then Some ([], cs)
      else if c = CHR 0x5C then
        (case cs of
           [] \<Rightarrow> None
         | e # r \<Rightarrow>
             (if e = CHR ''u'' then
                (case r of
                   h1 # h2 # h3 # h4 # r' \<Rightarrow>
                     (case hex4 h1 h2 h3 h4 of
                        None \<Rightarrow> None
                      | Some n \<Rightarrow>
                          if n < 256 then cons_str (char_of n) (scan_string r') else None)
                 | _ \<Rightarrow> None)
              else (case unescape e of
                      None \<Rightarrow> None
                    | Some ch \<Rightarrow> cons_str ch (scan_string r))))
      else if (of_char c :: nat) < 32 then None
      else cons_str c (scan_string cs))"

definition scan_exp :: "string \<Rightarrow> (int \<times> string) option" where
  "scan_exp s =
     (case s of
        [] \<Rightarrow> None
      | e # r \<Rightarrow>
          if e = CHR ''e'' \<or> e = CHR ''E'' then
            (let neg = (r \<noteq> [] \<and> hd r = CHR ''-'');
                 r1 = (if r \<noteq> [] \<and> (hd r = CHR ''-'' \<or> hd r = CHR ''+'') then tl r else r)
             in if r1 \<noteq> [] \<and> is_digit (hd r1)
                then Some ((if neg then - 1 else 1) * int (digits_val (takeWhile is_digit r1)),
                           dropWhile is_digit r1)
                else None)
          else None)"

definition scan_number :: "string \<Rightarrow> (json \<times> string) option" where
  "scan_number s =
     (let neg = (s \<noteq> [] \<and> hd s = CHR ''-'');
          s1 = (if neg then tl s else s)
      in if s1 = [] \<or> \<not> is_digit (hd s1) then None
         else
           (let ip = (if hd s1 = CHR ''0'' then [hd s1] else takeWhile is_digit s1);
                s2 = drop (length ip) s1;
                has_frac = (case s2 of p # q # r \<Rightarrow> p = CHR ''.'' \<and> is_digit q | _ \<Rightarrow> False);
                fp = (if has_frac then takeWhile is_digit (tl s2) else []);
                s3 = (if has_frac then drop (1 + length fp) s2 else s2)
            in case scan_exp s3 of
                 None \<Rightarrow>
                   if has_frac
                   then Some (JFloat (Dec neg (digits_val (ip @ fp)) (- int (length fp))), s3)
                   else Some (JInt (if neg then - int (digits_val ip) else int (digits_val ip)), s3)
               | Some (ex, s4) \<Rightarrow>
                   Some (JFloat (Dec neg (digits_val (ip @ fp)) (ex - int (length fp))), s4)))"

text \<open>\<^verbatim>\<open>d[key] = value\<close> on a dict in insertion order.\<close>

fun dict_set :: "string \<Rightarrow> json \<Rightarrow> (string \<times> json) list \<Rightarrow> (string \<times> json) list" where
  "dict_set k v [] = [(k, v)]"
| "dict_set k v ((k', v') # kvs) =
     (if k = k' then (k, v) # kvs else (k', v') # dict_set k v kvs)"

text \<open>
  The scanner. Its first argument bounds the depth of the calls; \<open>json_loads\<close> gives it
  more than the text can use (\<open>json_loads_fuel\<close> below).
\<close>

fun parse_value :: "nat \<Rightarrow> string \<Rightarrow> exc + (json \<times> string)"
  and parse_elems :: "nat \<Rightarrow> string \<Rightarrow> json list \<Rightarrow> exc + (json \<times> string)"
  and parse_members :: "nat \<Rightarrow> string \<Rightarrow> (string \<times> json) list \<Rightarrow> exc + (json \<times> string)"
where
  "parse_value 0 s = Inl RecursionError"
| "parse_value (Suc n) s =
     (case s of
        [] \<Rightarrow> Inl JSONDecodeError
      | c # cs \<Rightarrow>
          if c = CHR 0x22 then
            (case scan_string cs of
               None \<Rightarrow> Inl JSONDecodeError
             | Some (str, rest) \<Rightarrow> Inr (JStr str, rest))
          else if c = CHR ''{'' then
            (case skip_ws cs of
               [] \<Rightarrow> Inl JSONDecodeError
             | d # ds \<Rightarrow>
                 if d = CHR ''}'' then Inr (JObj [], ds)
                 else if d = CHR 0x22 then parse_members n (d # ds) []
                 else Inl JSONDecodeError)
          else if c = CHR ''['' then
            (case skip_ws cs of
               [] \<Rightarrow> Inl JSONDecodeError
             | d # ds \<Rightarrow>
                 if d = CHR '']'' then Inr (JArr [], ds)
                 else parse_elems n (d # ds) [])
          else if startswith s ''null'' then Inr (JNull, drop 4 s)
          else if startswith s ''true'' then Inr (JBool True, drop 4 s)
          else if startswith s ''false'' then Inr (JBool False, drop 5 s)
          else
            (case scan_number s of
               Some r \<Rightarrow> Inr r
             | None \<Rightarrow>
                 if startswith s ''NaN'' then Inr (JFloat NaN, drop 3 s)
                 else if startswith s ''Infinity'' then Inr (JFloat (Inf False), drop 8 s)
                 else if startswith s ''-Infinity'' then Inr (JFloat (Inf True), drop 9 s)
                 else Inl JSONDecodeError))"
| "parse_elems 0 s acc = Inl RecursionError"
| "parse_elems (Suc n) s acc =
     (case parse_value n s of
        Inl e \<Rightarrow> Inl e
      | Inr (v, r) \<Rightarrow>
          (case skip_ws r of
             [] \<Rightarrow> Inl JSONDecodeError
           | d # ds \<Rightarrow>
               if d = CHR '']'' then Inr (JArr (acc @ [v]), ds)
               else if d = CHR '','' then parse_elems n (skip_ws ds) (acc @ [v])
               else Inl JSONDecodeError))"
| "parse_members 0 s acc = Inl RecursionError"
| "parse_members (Suc n) s acc =
     (case s of
        [] \<Rightarrow> Inl JSONDecodeError
      | q # s0 \<Rightarrow>
          if q \<noteq> CHR 0x22 then Inl JSONDecodeError
          else
            (case scan_string s0 of
               None \<Rightarrow> Inl JSONDecodeError
             | Some (key, r0) \<Rightarrow>
                 (case skip_ws r0 of
                    [] \<Rightarrow> Inl JSONDecodeError
                  | col # r1 \<Rightarrow>
                      if col \<noteq> CHR '':'' then Inl JSONDecodeError
                      else
                        (case parse_value n (skip_ws r1) of
                           Inl e \<Rightarrow> Inl e
                         | Inr (v, r2) \<Rightarrow>
                             (case skip_ws r2 of
                                [] \<Rightarrow> Inl JSONDecodeError
                              | d # ds \<Rightarrow>
                                  if d = CHR ''}'' then Inr (JObj (dict_set key v acc), ds)
                                  else if d = CHR '','' then
                                    parse_members n (skip_ws ds) (dict_set key v acc)
                                  else Inl JSONDecodeError)))))"

definition json_loads :: loads where
  "json_loads s =
     (case parse_value (2 * length s + 2) (skip_ws s) of
        Inl e \<Rightarrow> Inl e
      | Inr (v, r) \<Rightarrow> if skip_ws r = [] then Inr v else Inl JSONDecodeError)"

text \<open>\<open>tail_of r s\<close>: the text \<open>r\<close> is what is left of \<open>s\<close> after some of its characters.\<close>

definition tail_of :: "string \<Rightarrow> string \<Rightarrow> bool" where
  "tail_of r s = (length r \<le> length s \<and> r = drop (length s - length r) s)"

section \<open>A scripted backend\<close>

text \<open>
  A backend for concrete runs: it answers the calls with the outcomes of a script, in
  order, refuses the connection once the script is used up, and records every request.
\<close>

type_synonym script = "(exc + response) list \<times> generate_request list"

definition scripted :: "script backend" where
  "scripted st req =
     (case fst st of
        [] \<Rightarrow> (Inl ConnectError, ([], snd st @ [req]))
      | out # outs \<Rightarrow> (out, (outs, snd st @ [req])))"

text \<open>
  The body the backend sends for a completion: \<^verbatim>\<open>{"response": "..."}\<close>, with the
  quotes, backslashes and line feeds of the completion escaped.
\<close>

fun escape_str :: "string \<Rightarrow> string" where
  "escape_str [] = []"
| "escape_str (c # cs) =
     (if c = CHR 0x22 then CHR 0x5C # CHR 0x22 # escape_str cs
      else if c = CHR 0x5C then CHR 0x5C # CHR 0x5C # escape_str cs
      else if c = CHR 0x0A then CHR 0x5C # CHR ''n'' # escape_str cs
      else c # escape_str cs)"

definition completion_response :: "string \<Rightarrow> exc + response" where
  \<open>completion_response completion =
     Inr \<lparr>status_code = 200,
          response_text = ''{"response": "'' @ escape_str completion @ [CHR 0x22, CHR ''}'']\<rparr>\<close>

text \<open>A backend that cannot be reached: every call is refused, and the calls are counted.\<close>

definition refusing :: "nat backend" where
  "refusing calls req = (Inl ConnectError, Suc calls)"

section \<open>The brace search under trimming\<close>

text \<open>
  Stripping whitespace and code-fence markers removes text without braces from both
  ends, which moves the two brace positions by the same amount and leaves the slice
  between them as it was.
\<close>

lemma py_find_range: "- 1 \<le> py_find s c \<and> py_find s c < int (length s)"
  by (induction s) (auto simp: Let_def)

lemma py_find_notin: "c \<notin> set s \<Longrightarrow> py_find s c = - 1"
  by (induction s) auto

lemma py_find_minus1_iff: "py_find s c = - 1 \<longleftrightarrow> c \<notin> set s"
proof (induction s)
  case Nil
  then show ?case by simp
next
  case (Cons x xs)
  then show ?case
    using py_find_range [of xs c] by (auto simp: Let_def)
qed

lemma py_find_append_left:
  "c \<notin> set a \<Longrightarrow> py_find (a @ m) c = (if py_find m c = - 1 then - 1 else int (length a) + py_find m c)"
  using py_find_range [of m c] by (induction a) (auto simp: Let_def)

lemma py_find_append_right: "c \<notin> set b \<Longrightarrow> py_find (m @ b) c = py_find m c"
  by (induction m) (auto simp: Let_def py_find_notin)

lemma py_rfind_range: "- 1 \<le> py_rfind s c \<and> py_rfind s c < int (length s)"
  using py_find_range [of "rev s" c] by (auto simp: py_rfind_def Let_def)

lemma py_rfind_trim:
  assumes "c \<notin> set a" "c \<notin> set b"
  shows "py_rfind (a @ m @ b) c = (if py_rfind m c = - 1 then - 1 else int (length a) + py_rfind m c)"
proof -
  have 1: "py_find (rev m @ rev a) c = py_find (rev m) c"
    using assms(1) by (simp add: py_find_append_right)
  have 2: "py_find (rev b @ rev m @ rev a) c =
           (if py_find (rev m) c = - 1 then - 1 else int (length b) + py_find (rev m) c)"
    using assms(2) py_find_append_left [of c "rev b" "rev m @ rev a"] 1 by simp
  have 3: "py_find (rev m) c < int (length m)"
    using py_find_range [of "rev m" c] by simp
  have 4: "- 1 \<le> py_find (rev m) c"
    using py_find_range [of "rev m" c] by simp
  show ?thesis
    using 2 3 4 by (auto simp: py_rfind_def Let_def)
qed

lemma py_find_trim:
  assumes "c \<notin> set a" "c \<notin> set b"
  shows "py_find (a @ m @ b) c = (if py_find m c = - 1 then - 1 else int (length a) + py_find m c)"
  using assms by (simp add: py_find_append_left py_find_append_right)

lemma has_brace_pair_trim:
  "brace_free a \<Longrightarrow> brace_free b \<Longrightarrow> has_brace_pair (a @ m @ b) = has_brace_pair m"
  using py_find_range [of m "CHR ''{''"] py_rfind_range [of m "CHR ''}''"]
  by (auto simp: has_brace_pair_def brace_free_def py_find_trim py_rfind_trim)

lemma take_drop_trim:
  "n \<le> length m - k \<Longrightarrow> take n (drop (length a + k) (a @ m @ b)) = take n (drop k m)"
  by simp

lemma slice_trim:
  assumes "0 \<le> i" "i < j" "j < int (length m)"
  shows "slice (a @ m @ b) (int (length a) + i) (int (length a) + j + 1) = slice m i (j + 1)"
proof -
  obtain k where k: "i = int k"
    using assms(1) nonneg_int_cases by blast
  obtain l where l: "j = int l"
    using assms(1,2) nonneg_int_cases [of j] by auto
  have kl: "k < l" "l < length m"
    using assms(2,3) k l by auto
  have 1: "nat (int (length a) + i) = length a + k"
    using k by simp
  have 2: "nat (int (length a) + j + 1) = length a + l + 1"
    using l by simp
  have 3: "nat i = k" "nat (j + 1) = l + 1"
    using k l by auto
  have "take (length a + l + 1 - (length a + k)) (drop (length a + k) (a @ m @ b))
        = take (length a + l + 1 - (length a + k)) (drop k m)"
    using kl by (intro take_drop_trim) simp
  moreover have "length a + l + 1 - (length a + k) = l + 1 - k"
    by simp
  ultimately show ?thesis
    unfolding slice_def 1 2 3 by simp
qed

lemma json_candidate_trim:
  assumes "brace_free a" "brace_free b" "has_brace_pair m"
  shows "json_candidate (a @ m @ b) = json_candidate m"
proof -
  let ?i = "py_find m (CHR ''{'')" and ?j = "py_rfind m (CHR ''}'')"
  have i: "0 \<le> ?i" "?i < ?j" "?j < int (length m)"
    using assms(3) py_find_range [of m "CHR ''{''"] py_rfind_range [of m "CHR ''}''"]
    by (auto simp: has_brace_pair_def)
  have f: "py_find (a @ m @ b) (CHR ''{'') = int (length a) + ?i"
    using assms(1,2) i by (simp add: brace_free_def py_find_trim)
  have r: "py_rfind (a @ m @ b) (CHR ''}'') = int (length a) + ?j"
    using assms(1,2) i by (simp add: brace_free_def py_rfind_trim)
  have "json_candidate (a @ m @ b) = slice (a @ m @ b) (int (length a) + ?i) (int (length a) + ?j + 1)"
    unfolding json_candidate_def f r using i by (simp add: Let_def)
  also have "\<dots> = slice m ?i (?j + 1)"
    using i by (rule slice_trim)
  also have "\<dots> = json_candidate m"
    unfolding json_candidate_def using i by (simp add: Let_def)
  finally show ?thesis .
qed

lemma json_candidate_no_pair: "\<not> has_brace_pair t \<Longrightarrow> json_candidate t = t"
  by (auto simp: json_candidate_def has_brace_pair_def Let_def)


lemma whitespace_brace_free: "\<forall>c\<in>set a. py_isspace c \<Longrightarrow> brace_free a"
  by (auto simp: brace_free_def py_isspace_def Let_def)

lemma brace_free_append: "brace_free (a @ b) \<longleftrightarrow> brace_free a \<and> brace_free b"
  by (auto simp: brace_free_def)

lemma split_right: "xs = rev (dropWhile P (rev xs)) @ rev (takeWhile P (rev xs))"
proof -
  have "rev (takeWhile P (rev xs) @ dropWhile P (rev xs)) = rev (rev xs)"
    by (simp only: takeWhile_dropWhile_id)
  then show ?thesis
    by (simp only: rev_append rev_rev_ident)
qed

lemma py_strip_trimmed: "\<exists>a b. t = a @ py_strip t @ b \<and> brace_free a \<and> brace_free b"
proof -
  let ?x = "dropWhile py_isspace t"
  let ?a = "takeWhile py_isspace t"
  let ?b = "rev (takeWhile py_isspace (rev ?x))"
  have "?x = rev (dropWhile py_isspace (rev ?x)) @ ?b"
    by (rule split_right)
  then have x: "?x = py_strip t @ ?b"
    by (simp only: py_strip_def)
  have "t = ?a @ ?x" by simp
  with x have t: "t = ?a @ py_strip t @ ?b" by simp
  have a: "brace_free ?a"
    by (rule whitespace_brace_free) (auto dest: set_takeWhileD)
  have b: "brace_free ?b"
    by (rule whitespace_brace_free) (auto dest: set_takeWhileD)
  from t a b show ?thesis by blast
qed

lemma startswith_trimmed:
  "startswith t p \<Longrightarrow> length p = n \<Longrightarrow> t = p @ drop n t"
  by (metis append_take_drop_id startswith_def)

lemma endswith_trimmed:
  "endswith t p \<Longrightarrow> length p = n \<Longrightarrow> t = take (length t - n) t @ p"
  by (metis append_take_drop_id endswith_def)

lemma strip_fences_trimmed:
  "\<exists>a b. t = a @ strip_fences t @ b \<and> brace_free a \<and> brace_free b"
proof -
  define t1 where "t1 = py_strip t"
  define t2 where "t2 = (if startswith t1 ''```json'' then drop 7 t1 else t1)"
  define t3 where "t3 = (if startswith t2 ''```'' then drop 3 t2 else t2)"
  define t4 where "t4 = (if endswith t3 ''```'' then take (length t3 - 3) t3 else t3)"
  have sf: "strip_fences t = py_strip t4"
    by (simp add: strip_fences_def t1_def t2_def t3_def t4_def Let_def)
  obtain a1 b1 where 1: "t = a1 @ t1 @ b1" "brace_free a1" "brace_free b1"
    using py_strip_trimmed [of t] t1_def by blast
  obtain a2 where 2: "t1 = a2 @ t2" "brace_free a2"
  proof (cases "startswith t1 ''```json''")
    case True
    then have "t1 = ''```json'' @ drop 7 t1"
      by (rule startswith_trimmed) simp
    with True have "t1 = ''```json'' @ t2"
      by (simp only: t2_def if_True)
    moreover have "brace_free ''```json''" by (simp add: brace_free_def)
    ultimately show ?thesis using that by blast
  next
    case False
    then have "t1 = [] @ t2" by (simp add: t2_def)
    moreover have "brace_free []" by (simp add: brace_free_def)
    ultimately show ?thesis using that by blast
  qed
  obtain a3 where 3: "t2 = a3 @ t3" "brace_free a3"
  proof (cases "startswith t2 ''```''")
    case True
    then have "t2 = ''```'' @ drop 3 t2"
      by (rule startswith_trimmed) simp
    with True have "t2 = ''```'' @ t3"
      by (simp only: t3_def if_True)
    moreover have "brace_free ''```''" by (simp add: brace_free_def)
    ultimately show ?thesis using that by blast
  next
    case False
    then have "t2 = [] @ t3" by (simp add: t3_def)
    moreover have "brace_free []" by (simp add: brace_free_def)
    ultimately show ?thesis using that by blast
  qed
  obtain b4 where 4: "t3 = t4 @ b4" "brace_free b4"
  proof (cases "endswith t3 ''```''")
    case True
    then have "t3 = take (length t3 - 3) t3 @ ''```''"
      by (rule endswith_trimmed) simp
    with True have "t3 = t4 @ ''```''"
      by (simp only: t4_def if_True)
    moreover have "brace_free ''```''" by (simp add: brace_free_def)
    ultimately show ?thesis using that by blast
  next
    case False
    then have "t3 = t4 @ []" by (simp add: t4_def)
    moreover have "brace_free []" by (simp add: brace_free_def)
    ultimately show ?thesis using that by blast
  qed
  obtain a5 b5 where 5: "t4 = a5 @ py_strip t4 @ b5" "brace_free a5" "brace_free b5"
    using py_strip_trimmed [of t4] by blast
  have "t = (a1 @ a2 @ a3 @ a5) @ strip_fences t @ (b5 @ b4 @ b1)"
    using 1(1) 2(1) 3(1) 4(1) 5(1) sf by simp
  moreover have "brace_free (a1 @ a2 @ a3 @ a5)" "brace_free (b5 @ b4 @ b1)"
    using 1 2 3 4 5 by (simp_all add: brace_free_append)
  ultimately show ?thesis by blast
qed

lemma candidate_trimmed:
  assumes "t = a @ m @ b" "brace_free a" "brace_free b"
  shows "has_brace_pair m = has_brace_pair t"
    and "has_brace_pair t \<Longrightarrow> json_candidate m = json_candidate t"
  using assms by (simp_all add: has_brace_pair_trim json_candidate_trim)

lemma candidate_py_strip:
  "has_brace_pair (py_strip t) = has_brace_pair t"
  "has_brace_pair t \<Longrightarrow> json_candidate (py_strip t) = json_candidate t"
  using py_strip_trimmed [of t] candidate_trimmed by metis+

lemma candidate_strip_fences:
  "has_brace_pair (strip_fences t) = has_brace_pair t"
  "has_brace_pair t \<Longrightarrow> json_candidate (strip_fences t) = json_candidate t"
  using strip_fences_trimmed [of t] candidate_trimmed by metis+

lemma candidate_single_object:
  assumes "CHR ''{'' \<notin> set pre" "CHR ''}'' \<notin> set suf"
  shows "has_brace_pair (pre @ (CHR ''{'' # mid @ [CHR ''}'']) @ suf)"
    and "json_candidate (pre @ (CHR ''{'' # mid @ [CHR ''}'']) @ suf) = CHR ''{'' # mid @ [CHR ''}'']"
proof -
  let ?obj = "CHR ''{'' # mid @ [CHR ''}'']"
  let ?t = "pre @ ?obj @ suf"
  have f: "py_find ?t (CHR ''{'') = int (length pre)"
    using assms(1) py_find_append_left [of "CHR ''{''" pre "?obj @ suf"] by simp
  have "rev ?t = rev suf @ (CHR ''}'' # rev mid @ CHR ''{'' # rev pre)"
    by simp
  moreover have "py_find (rev suf @ (CHR ''}'' # rev mid @ CHR ''{'' # rev pre)) (CHR ''}'') = int (length suf)"
    using assms(2) py_find_append_left [of "CHR ''}''" "rev suf" "CHR ''}'' # rev mid @ CHR ''{'' # rev pre"]
    by simp
  ultimately have "py_find (rev ?t) (CHR ''}'') = int (length suf)"
    by simp
  then have r: "py_rfind ?t (CHR ''}'') = int (length pre) + int (length mid) + 1"
    unfolding py_rfind_def by (simp add: Let_def)
  show "has_brace_pair ?t"
    unfolding has_brace_pair_def f r by simp
  have "slice ?t (int (length pre)) (int (length pre) + int (length mid) + 1 + 1) = ?obj"
    by (simp add: slice_def nat_add_distrib)
  then show "json_candidate ?t = ?obj"
    unfolding json_candidate_def f r by (simp add: Let_def)
qed

section \<open>The parser model consumes its input\<close>

text \<open>
  Every scanner of the parser model returns a proper tail of the text it was given.
  Two facts follow: \<open>json_loads\<close> never uses up the bound on its calls, and the text of
  an object it returns has an opening brace before a closing brace.
\<close>

lemma tail_of_iff: "tail_of r s \<longleftrightarrow> (\<exists>k. r = drop k s)"
proof
  assume "tail_of r s"
  then show "\<exists>k. r = drop k s" unfolding tail_of_def by blast
next
  assume "\<exists>k. r = drop k s"
  then obtain k where k: "r = drop k s" by blast
  show "tail_of r s"
  proof (cases "k \<le> length s")
    case True
    then show ?thesis using k by (simp add: tail_of_def)
  next
    case False
    then show ?thesis using k by (simp add: tail_of_def)
  qed
qed

lemma tail_of_refl: "tail_of s s"
  by (simp add: tail_of_def)

lemma tail_of_trans: "tail_of r m \<Longrightarrow> tail_of m s \<Longrightarrow> tail_of r s"
  unfolding tail_of_iff by (metis drop_drop)

lemma tail_of_drop: "tail_of (drop k s) s"
  unfolding tail_of_iff by blast

lemma tail_of_Cons: "tail_of r cs \<Longrightarrow> tail_of r (c # cs)"
  unfolding tail_of_iff by (metis drop_Suc_Cons)

lemma tail_of_tl: "tail_of (tl s) s"
  unfolding tail_of_iff by (metis drop_Suc drop_0)

lemma tail_of_dropWhile: "tail_of (dropWhile P s) s"
  unfolding tail_of_iff by (metis dropWhile_eq_drop)

lemma tail_of_skip_ws: "tail_of (skip_ws s) s"
  unfolding skip_ws_def by (rule tail_of_dropWhile)

lemma tail_of_length: "tail_of r s \<Longrightarrow> length r \<le> length s"
  by (simp add: tail_of_def)

lemma tail_of_set: "tail_of r s \<Longrightarrow> set r \<subseteq> set s"
  unfolding tail_of_iff by (auto dest: in_set_dropD)

lemma cons_str_Some:
  "cons_str c x = Some (str, r) \<Longrightarrow> \<exists>str'. x = Some (str', r)"
  by (cases x) (auto simp: cons_str_def)

lemma scan_string_rest_drop:
  "scan_string s = Some (str, r) \<Longrightarrow> length r < length s \<and> (\<exists>k. r = drop k s)"
proof (induction s arbitrary: str r rule: scan_string.induct)
  case 1
  then show ?case by simp
next
  case (2 c cs)
  show ?case
  proof (cases "c = CHR 0x22")
    case True
    with "2.prems" have "r = cs" by simp
    then show ?thesis by (auto intro: exI [of _ 1])
  next
    case q: False
    show ?thesis
    proof (cases "c = CHR 0x5C")
      case False
      with q "2.prems" obtain str' where s: "scan_string cs = Some (str', r)"
        by (auto split: if_splits dest: cons_str_Some)
      have "length r < length cs \<and> (\<exists>k. r = drop k cs)"
        using "2.IH"(3) [OF q False _ s] q False "2.prems" by (auto split: if_splits)
      then obtain k where "length r < length cs" "r = drop k cs" by blast
      then show ?thesis by (auto intro: exI [of _ "Suc k"])
    next
      case True
      then obtain e t where cs: "cs = e # t"
        using q "2.prems" by (cases cs) auto
      show ?thesis
      proof (cases "e = CHR ''u''")
        case False
        with q True cs "2.prems" obtain ch str' where u: "unescape e = Some ch"
          and s: "scan_string t = Some (str', r)"
          by (auto split: option.splits dest: cons_str_Some)
        have "length r < length t \<and> (\<exists>k. r = drop k t)"
          using "2.IH"(2) [OF q True cs False u s] .
        then obtain k where "length r < length t" "r = drop k t" by blast
        then show ?thesis using cs by (auto intro: exI [of _ "Suc (Suc k)"])
      next
        case u: True
        with q True cs "2.prems" obtain h1 h2 h3 h4 t' n str' where t: "t = h1 # h2 # h3 # h4 # t'"
          and h: "hex4 h1 h2 h3 h4 = Some n" and n: "n < 256"
          and s: "scan_string t' = Some (str', r)"
          by (auto split: list.splits option.splits if_splits dest: cons_str_Some)
        have "length r < length t' \<and> (\<exists>k. r = drop k t')"
          using "2.IH"(1) [OF q True cs u _ _ _ _ h n s] t by simp
        then obtain k where "length r < length t'" "r = drop k t'" by blast
        then show ?thesis using cs t by (auto intro: exI [of _ "Suc (Suc (Suc (Suc (Suc (Suc k)))))"])
      qed
    qed
  qed
qed


lemma scan_string_rest:
  "scan_string s = Some (str, r) \<Longrightarrow> length r < length s \<and> tail_of r s"
  using scan_string_rest_drop [of s str r] by (simp add: tail_of_iff)

lemma scan_exp_rest: "scan_exp s = Some (ex, r) \<Longrightarrow> tail_of r s"
proof -
  assume a: "scan_exp s = Some (ex, r)"
  then obtain e t where s: "s = e # t" by (cases s) (auto simp: scan_exp_def)
  let ?r1 = "if t \<noteq> [] \<and> (hd t = CHR ''-'' \<or> hd t = CHR ''+'') then tl t else t"
  from a s have r: "r = dropWhile is_digit ?r1"
    by (auto simp: scan_exp_def Let_def split: if_splits)
  have "tail_of ?r1 t" by (simp add: tail_of_tl tail_of_refl)
  then have "tail_of r t" unfolding r by (rule tail_of_trans [OF tail_of_dropWhile])
  then show ?thesis unfolding s by (rule tail_of_Cons)
qed

lemma scan_number_rest:
  assumes "scan_number s = Some (v, r)"
  shows "length r < length s \<and> tail_of r s \<and> \<not> is_dict v"
proof -
  define neg where "neg = (s \<noteq> [] \<and> hd s = CHR ''-'')"
  define s1 where "s1 = (if neg then tl s else s)"
  define ip where "ip = (if hd s1 = CHR ''0'' then [hd s1] else takeWhile is_digit s1)"
  define s2 where "s2 = drop (length ip) s1"
  define has_frac where "has_frac = (case s2 of p # q # r \<Rightarrow> p = CHR ''.'' \<and> is_digit q | _ \<Rightarrow> False)"
  define fp where "fp = (if has_frac then takeWhile is_digit (tl s2) else [])"
  define s3 where "s3 = (if has_frac then drop (1 + length fp) s2 else s2)"
  have unf: "scan_number s =
     (if s1 = [] \<or> \<not> is_digit (hd s1) then None
      else (case scan_exp s3 of
              None \<Rightarrow>
                if has_frac
                then Some (JFloat (Dec neg (digits_val (ip @ fp)) (- int (length fp))), s3)
                else Some (JInt (if neg then - int (digits_val ip) else int (digits_val ip)), s3)
            | Some (ex, s4) \<Rightarrow>
                Some (JFloat (Dec neg (digits_val (ip @ fp)) (ex - int (length fp))), s4)))"
    by (simp only: scan_number_def Let_def neg_def s1_def ip_def s2_def has_frac_def fp_def s3_def)
  from assms unf have ne: "s1 \<noteq> []" and dg: "is_digit (hd s1)"
    by (auto split: if_splits)
  have t1: "tail_of s1 s"
    by (simp add: s1_def tail_of_tl tail_of_refl)
  have "0 < length ip"
    using ne dg by (cases s1) (auto simp: ip_def)
  then have l2: "length s2 < length s1"
    using ne by (simp add: s2_def)
  have t2: "tail_of s2 s1"
    by (simp add: s2_def tail_of_drop)
  have t3: "tail_of s3 s2"
    by (simp add: s3_def tail_of_drop tail_of_refl)
  have t4: "tail_of r s3 \<and> \<not> is_dict v"
  proof (cases "scan_exp s3")
    case None
    with assms unf ne dg show ?thesis
      by (auto simp: tail_of_refl split: if_splits)
  next
    case (Some p)
    obtain ex s4 where p: "p = (ex, s4)" by (cases p)
    with Some assms unf ne dg have "r = s4" and "\<not> is_dict v" by auto
    with Some p scan_exp_rest [of s3 ex s4] show ?thesis by simp
  qed
  have "tail_of r s"
    using t4 t3 t2 t1 by (blast intro: tail_of_trans)
  moreover have "length r < length s"
    using tail_of_length [OF t1] l2 tail_of_length [OF t3] t4 tail_of_length [of r s3] by linarith
  ultimately show ?thesis using t4 by simp
qed


lemma startswith_rest:
  assumes "startswith s p" and "length p = n" and "0 < n"
  shows "length (drop n s) < length s \<and> tail_of (drop n s) s"
proof -
  have "length (take n s) = n"
    using assms(1,2) by (auto simp: startswith_def)
  then have "n \<le> length s" by simp
  with assms(3) show ?thesis by (simp add: tail_of_drop)
qed

lemma skip_ws_Cons_rest:
  assumes "skip_ws s = d # ds"
  shows "tail_of ds s" and "length ds < length s" and "d \<in> set s"
proof -
  have t: "tail_of (d # ds) s"
    using tail_of_skip_ws [of s] assms by simp
  have "tail_of ds (d # ds)"
    using tail_of_tl [of "d # ds"] by simp
  then show "tail_of ds s" using t by (rule tail_of_trans)
  show "length ds < length s"
    using tail_of_length [OF t] by simp
  show "d \<in> set s"
    using tail_of_set [OF t] by auto
qed

lemma parse_scalar_rest:
  assumes "c \<noteq> CHR 0x22" and "c \<noteq> CHR ''{''" and "c \<noteq> CHR ''[''"
    and "parse_value (Suc n) (c # cs) = Inr (v, r)"
  shows "length r < length (c # cs) \<and> tail_of r (c # cs) \<and> \<not> is_dict v"
proof -
  let ?s = "c # cs"
  from assms have
    "(startswith ?s ''null'' \<and> v = JNull \<and> r = drop 4 ?s) \<or>
     (startswith ?s ''true'' \<and> v = JBool True \<and> r = drop 4 ?s) \<or>
     (startswith ?s ''false'' \<and> v = JBool False \<and> r = drop 5 ?s) \<or>
     scan_number ?s = Some (v, r) \<or>
     (startswith ?s ''NaN'' \<and> v = JFloat NaN \<and> r = drop 3 ?s) \<or>
     (startswith ?s ''Infinity'' \<and> v = JFloat (Inf False) \<and> r = drop 8 ?s) \<or>
     (startswith ?s ''-Infinity'' \<and> v = JFloat (Inf True) \<and> r = drop 9 ?s)"
    by (simp split: if_splits option.splits)
  then show ?thesis
  proof (elim disjE conjE)
    assume "startswith ?s ''null''" "v = JNull" "r = drop 4 ?s"
    then show ?thesis using startswith_rest [of ?s "''null''" 4] by simp
  next
    assume "startswith ?s ''true''" "v = JBool True" "r = drop 4 ?s"
    then show ?thesis using startswith_rest [of ?s "''true''" 4] by simp
  next
    assume "startswith ?s ''false''" "v = JBool False" "r = drop 5 ?s"
    then show ?thesis using startswith_rest [of ?s "''false''" 5] by simp
  next
    assume "scan_number ?s = Some (v, r)"
    then show ?thesis by (rule scan_number_rest)
  next
    assume "startswith ?s ''NaN''" "v = JFloat NaN" "r = drop 3 ?s"
    then show ?thesis using startswith_rest [of ?s "''NaN''" 3] by simp
  next
    assume "startswith ?s ''Infinity''" "v = JFloat (Inf False)" "r = drop 8 ?s"
    then show ?thesis using startswith_rest [of ?s "''Infinity''" 8] by simp
  next
    assume "startswith ?s ''-Infinity''" "v = JFloat (Inf True)" "r = drop 9 ?s"
    then show ?thesis using startswith_rest [of ?s "''-Infinity''" 9] by simp
  qed
qed


lemma parse_rest:
  "(\<forall>s v r. parse_value n s = Inr (v, r) \<longrightarrow>
      length r < length s \<and> tail_of r s \<and>
      (is_dict v \<longrightarrow> (\<exists>cs. s = CHR ''{'' # cs \<and> CHR ''}'' \<in> set cs))) \<and>
   (\<forall>s acc v r. parse_elems n s acc = Inr (v, r) \<longrightarrow>
      length r < length s \<and> tail_of r s \<and> \<not> is_dict v) \<and>
   (\<forall>s acc v r. parse_members n s acc = Inr (v, r) \<longrightarrow>
      length r < length s \<and> tail_of r s \<and> CHR ''}'' \<in> set s)"
proof (induction n)
  case 0
  show ?case by simp
next
  case (Suc n)
  have V: "length r < length s \<and> tail_of r s" if "parse_value n s = Inr (v, r)" for s v r
    using Suc.IH that by blast
  have E: "length r < length s \<and> tail_of r s \<and> \<not> is_dict v"
    if "parse_elems n s acc = Inr (v, r)" for s acc v r
    using Suc.IH that by blast
  have M: "length r < length s \<and> tail_of r s \<and> CHR ''}'' \<in> set s"
    if "parse_members n s acc = Inr (v, r)" for s acc v r
    using Suc.IH that by blast
  have 1: "length r < length s \<and> tail_of r s \<and>
           (is_dict v \<longrightarrow> (\<exists>cs. s = CHR ''{'' # cs \<and> CHR ''}'' \<in> set cs))"
    if a: "parse_value (Suc n) s = Inr (v, r)" for s v r
  proof -
    from a obtain c cs where s: "s = c # cs" by (cases s) auto
    consider (str) "c = CHR 0x22" | (obj) "c = CHR ''{''" | (arr) "c = CHR ''[''"
      | (scalar) "c \<noteq> CHR 0x22" "c \<noteq> CHR ''{''" "c \<noteq> CHR ''[''"
      by blast
    then show ?thesis
    proof cases
      case str
      with a s obtain str' where "scan_string cs = Some (str', r)" and "v = JStr str'"
        by (auto split: option.splits)
      then show ?thesis
        using scan_string_rest [of cs str' r] s by (auto intro: tail_of_Cons)
    next
      case obj
      with a s obtain d ds where w: "skip_ws cs = d # ds"
        by (cases "skip_ws cs") auto
      note ws = skip_ws_Cons_rest [OF w]
      show ?thesis
      proof (cases "d = CHR ''}''")
        case True
        with a s obj w have "r = ds" by simp
        with ws True s obj show ?thesis by (auto intro: tail_of_Cons)
      next
        case False
        with a s obj w have m: "parse_members n (d # ds) [] = Inr (v, r)"
          by (auto split: if_splits)
        have t: "tail_of (d # ds) cs"
          using tail_of_skip_ws [of cs] w by simp
        from M [OF m] have "length r < length (d # ds)" "tail_of r (d # ds)" "CHR ''}'' \<in> set (d # ds)"
          by simp_all
        then have "length r < length s" "tail_of r s" "CHR ''}'' \<in> set cs"
          using t tail_of_length [OF t] tail_of_set [OF t] s
          by (auto intro: tail_of_Cons tail_of_trans)
        with s obj show ?thesis by simp
      qed
    next
      case arr
      with a s obtain d ds where w: "skip_ws cs = d # ds"
        by (cases "skip_ws cs") auto
      note ws = skip_ws_Cons_rest [OF w]
      show ?thesis
      proof (cases "d = CHR '']''")
        case True
        with a s arr w have "r = ds" "v = JArr []" by simp_all
        with ws s show ?thesis by (auto intro: tail_of_Cons)
      next
        case False
        with a s arr w have m: "parse_elems n (d # ds) [] = Inr (v, r)"
          by (auto split: if_splits)
        have t: "tail_of (d # ds) cs"
          using tail_of_skip_ws [of cs] w by simp
        from E [OF m] have "length r < length (d # ds)" "tail_of r (d # ds)" "\<not> is_dict v"
          by simp_all
        then have "length r < length s" "tail_of r s" "\<not> is_dict v"
          using t tail_of_length [OF t] s
          by (auto intro: tail_of_Cons tail_of_trans)
        then show ?thesis by simp
      qed
    next
      case scalar
      then show ?thesis
        using parse_scalar_rest [of c n cs v r] a s by simp
    qed
  qed
  have 2: "length r < length s \<and> tail_of r s \<and> \<not> is_dict v"
    if a: "parse_elems (Suc n) s acc = Inr (v, r)" for s acc v r
  proof -
    from a obtain v0 r0 where p: "parse_value n s = Inr (v0, r0)"
      by (cases "parse_value n s") (auto split: prod.splits)
    from V [OF p] have r0: "length r0 < length s" "tail_of r0 s" by simp_all
    from a p obtain d ds where w: "skip_ws r0 = d # ds"
      by (cases "skip_ws r0") auto
    note ws = skip_ws_Cons_rest [OF w]
    have ds: "length ds < length s" "tail_of ds s"
      using ws r0 by (auto intro: tail_of_trans)
    show ?thesis
    proof (cases "d = CHR '']''")
      case True
      with a p w have "r = ds" "v = JArr (acc @ [v0])" by simp_all
      with ds show ?thesis by simp
    next
      case False
      with a p w have m: "parse_elems n (skip_ws ds) (acc @ [v0]) = Inr (v, r)"
        by (auto split: if_splits)
      have t: "tail_of (skip_ws ds) s"
        using tail_of_skip_ws [of ds] ds(2) by (rule tail_of_trans)
      have l: "length (skip_ws ds) \<le> length ds"
        using tail_of_skip_ws [of ds] by (rule tail_of_length)
      from E [OF m] have "length r < length (skip_ws ds)" "tail_of r (skip_ws ds)" "\<not> is_dict v"
        by simp_all
      then show ?thesis
        using t l ds(1) by (auto intro: tail_of_trans)
    qed
  qed
  have 3: "length r < length s \<and> tail_of r s \<and> CHR ''}'' \<in> set s"
    if a: "parse_members (Suc n) s acc = Inr (v, r)" for s acc v r
  proof -
    from a obtain q s0 where s: "s = q # s0" by (cases s) auto
    from a s have q: "q = CHR 0x22" by (auto split: if_splits)
    from a s q obtain key r0 where k: "scan_string s0 = Some (key, r0)"
      by (cases "scan_string s0") auto
    from scan_string_rest [OF k] have r0: "length r0 < length s0" "tail_of r0 s0" by simp_all
    from a s q k obtain col r1 where w1: "skip_ws r0 = col # r1"
      by (cases "skip_ws r0") auto
    from a s q k w1 have col: "col = CHR '':''" by (auto split: if_splits)
    note ws1 = skip_ws_Cons_rest [OF w1]
    from a s q k w1 col obtain v0 r2 where p: "parse_value n (skip_ws r1) = Inr (v0, r2)"
      by (cases "parse_value n (skip_ws r1)") (auto split: prod.splits)
    from V [OF p] have r2: "length r2 < length (skip_ws r1)" "tail_of r2 (skip_ws r1)" by simp_all
    have t1: "tail_of (skip_ws r1) s0"
      using tail_of_skip_ws [of r1] ws1(1) r0(2) by (blast intro: tail_of_trans)
    have tr2: "tail_of r2 s0"
      using r2(2) t1 by (rule tail_of_trans)
    from a s q k w1 col p obtain d ds where w2: "skip_ws r2 = d # ds"
      by (cases "skip_ws r2") auto
    note ws2 = skip_ws_Cons_rest [OF w2]
    have ds: "tail_of ds s0" "d \<in> set s0"
      using ws2 tr2 tail_of_set [OF tr2] by (auto intro: tail_of_trans)
    have lds: "length ds < length s0"
      using ws2(2) tail_of_length [OF tr2] by simp
    show ?thesis
    proof (cases "d = CHR ''}''")
      case True
      with a s q k w1 col p w2 have "r = ds" by simp
      with ds lds True s show ?thesis by (auto intro: tail_of_Cons)
    next
      case False
      with a s q k w1 col p w2 have
        m: "parse_members n (skip_ws ds) (dict_set key v0 acc) = Inr (v, r)"
        by (auto split: if_splits)
      have t: "tail_of (skip_ws ds) s0"
        using tail_of_skip_ws [of ds] ds(1) by (rule tail_of_trans)
      have l: "length (skip_ws ds) \<le> length ds"
        using tail_of_skip_ws [of ds] by (rule tail_of_length)
      from M [OF m] have "length r < length (skip_ws ds)" "tail_of r (skip_ws ds)"
        "CHR ''}'' \<in> set (skip_ws ds)"
        by simp_all
      then show ?thesis
        using t l lds s tail_of_set [OF t] by (auto intro: tail_of_trans tail_of_Cons)
    qed
  qed
  from 1 2 3 show ?case by blast
qed


lemma py_find_append_in: "c \<in> set m \<Longrightarrow> py_find (m @ b) c = py_find m c"
  by (induction m) (auto simp: Let_def py_find_minus1_iff)

lemma has_brace_pair_object_text:
  assumes "CHR ''{'' \<notin> set pre" and "CHR ''}'' \<in> set cs"
  shows "has_brace_pair (pre @ CHR ''{'' # cs)"
proof -
  let ?s = "pre @ CHR ''{'' # cs"
  have f: "py_find ?s (CHR ''{'') = int (length pre)"
    using assms(1) py_find_append_left [of "CHR ''{''" pre "CHR ''{'' # cs"] by simp
  have i: "py_find (rev cs) (CHR ''}'') \<noteq> - 1"
    using assms(2) by (simp add: py_find_minus1_iff)
  have b: "- 1 \<le> py_find (rev cs) (CHR ''}'')" "py_find (rev cs) (CHR ''}'') < int (length cs)"
    using py_find_range [of "rev cs" "CHR ''}''"] by simp_all
  have "py_find (rev ?s) (CHR ''}'') = py_find (rev cs) (CHR ''}'')"
    using assms(2) py_find_append_in [of "CHR ''}''" "rev cs" "CHR ''{'' # rev pre"] by simp
  then have r: "py_rfind ?s (CHR ''}'') =
                int (length pre) + 1 + int (length cs) - 1 - py_find (rev cs) (CHR ''}'')"
    using i by (simp add: py_rfind_def Let_def)
  show ?thesis
    unfolding has_brace_pair_def f r using i b by simp
qed

lemma json_loads_object_has_brace_pair:
  assumes "json_loads s = Inr (JObj kvs)"
  shows "has_brace_pair s"
proof -
  define fuel where "fuel = 2 * length s + 2"
  have j: "json_loads s =
          (case parse_value fuel (skip_ws s) of
             Inl e \<Rightarrow> Inl e
           | Inr (v, r) \<Rightarrow> if skip_ws r = [] then Inr v else Inl JSONDecodeError)"
    by (simp only: json_loads_def fuel_def)
  from assms j obtain r where p: "parse_value fuel (skip_ws s) = Inr (JObj kvs, r)"
    by (cases "parse_value fuel (skip_ws s)") (auto split: prod.splits if_splits)
  have "is_dict (JObj kvs)" by simp
  with p parse_rest [of fuel] obtain cs
    where c: "skip_ws s = CHR ''{'' # cs" "CHR ''}'' \<in> set cs"
    by blast
  have s: "s = takeWhile is_ws s @ CHR ''{'' # cs"
    using c(1) takeWhile_dropWhile_id [of is_ws s] by (simp add: skip_ws_def)
  have "CHR ''{'' \<notin> set (takeWhile is_ws s)"
    by (auto dest: set_takeWhileD simp: is_ws_def)
  then have "has_brace_pair (takeWhile is_ws s @ CHR ''{'' # cs)"
    using c(2) by (rule has_brace_pair_object_text)
  with s show ?thesis by simp
qed

lemma parse_value_rest:
  "parse_value n s = Inr (v, r) \<Longrightarrow> length r < length s"
  using parse_rest [of n] by blast

lemma skip_ws_length: "length (skip_ws s) \<le> length s"
  using tail_of_skip_ws [of s] by (rule tail_of_length)


lemma fuel_value_step:
  assumes E: "\<And>s acc. 2 * length s + 2 \<le> n \<Longrightarrow> parse_elems n s acc \<noteq> Inl RecursionError"
    and M: "\<And>s acc. 2 * length s + 2 \<le> n \<Longrightarrow> parse_members n s acc \<noteq> Inl RecursionError"
    and n: "2 * length s + 1 \<le> Suc n"
  shows "parse_value (Suc n) s \<noteq> Inl RecursionError"
proof
  assume a: "parse_value (Suc n) s = Inl RecursionError"
  then obtain c cs where s: "s = c # cs" by (cases s) auto
  consider (str) "c = CHR 0x22" | (obj) "c = CHR ''{''" | (arr) "c = CHR ''[''"
    | (scalar) "c \<noteq> CHR 0x22" "c \<noteq> CHR ''{''" "c \<noteq> CHR ''[''"
    by blast
  then show False
  proof cases
    case str
    with a s show False by (auto split: option.splits)
  next
    case obj
    with a s obtain d ds where w: "skip_ws cs = d # ds"
      by (cases "skip_ws cs") auto
    with a s obj have "parse_members n (d # ds) [] = Inl RecursionError"
      by (auto split: if_splits)
    moreover have "2 * length (d # ds) + 2 \<le> n"
      using skip_ws_length [of cs] w n s by simp
    ultimately show False using M by blast
  next
    case arr
    with a s obtain d ds where w: "skip_ws cs = d # ds"
      by (cases "skip_ws cs") auto
    with a s arr have "parse_elems n (d # ds) [] = Inl RecursionError"
      by (auto split: if_splits)
    moreover have "2 * length (d # ds) + 2 \<le> n"
      using skip_ws_length [of cs] w n s by simp
    ultimately show False using E by blast
  next
    case scalar
    with a s show False by (simp split: if_splits option.splits)
  qed
qed


lemma fuel_elems_step:
  assumes V: "\<And>s. 2 * length s + 1 \<le> n \<Longrightarrow> parse_value n s \<noteq> Inl RecursionError"
    and E: "\<And>s acc. 2 * length s + 2 \<le> n \<Longrightarrow> parse_elems n s acc \<noteq> Inl RecursionError"
    and n: "2 * length s + 2 \<le> Suc n"
  shows "parse_elems (Suc n) s acc \<noteq> Inl RecursionError"
proof
  assume a: "parse_elems (Suc n) s acc = Inl RecursionError"
  have "2 * length s + 1 \<le> n"
    using n by simp
  then have v: "parse_value n s \<noteq> Inl RecursionError"
    by (rule V)
  with a obtain v0 r0 where p: "parse_value n s = Inr (v0, r0)"
    by (cases "parse_value n s") (auto split: prod.splits)
  have r0: "length r0 < length s"
    using p by (rule parse_value_rest)
  from a p obtain d ds where w: "skip_ws r0 = d # ds"
    by (cases "skip_ws r0") auto
  with a p have "parse_elems n (skip_ws ds) (acc @ [v0]) = Inl RecursionError"
    by (auto split: if_splits)
  moreover have "2 * length (skip_ws ds) + 2 \<le> n"
    using skip_ws_length [of ds] skip_ws_Cons_rest(2) [OF w] r0 n by simp
  ultimately show False using E by blast
qed


lemma fuel_members_step:
  assumes V: "\<And>s. 2 * length s + 1 \<le> n \<Longrightarrow> parse_value n s \<noteq> Inl RecursionError"
    and M: "\<And>s acc. 2 * length s + 2 \<le> n \<Longrightarrow> parse_members n s acc \<noteq> Inl RecursionError"
    and n: "2 * length s + 2 \<le> Suc n"
  shows "parse_members (Suc n) s acc \<noteq> Inl RecursionError"
proof
  assume a: "parse_members (Suc n) s acc = Inl RecursionError"
  then obtain q s0 where s: "s = q # s0" by (cases s) auto
  from a s have q: "q = CHR 0x22" by (auto split: if_splits)
  from a s q obtain key r0 where k: "scan_string s0 = Some (key, r0)"
    by (cases "scan_string s0") auto
  from scan_string_rest [OF k] have r0: "length r0 < length s0" by simp
  from a s q k obtain col r1 where w1: "skip_ws r0 = col # r1"
    by (cases "skip_ws r0") auto
  from a s q k w1 have col: "col = CHR '':''" by (auto split: if_splits)
  have l1: "length (skip_ws r1) < length s0"
    using skip_ws_length [of r1] skip_ws_Cons_rest(2) [OF w1] r0 by simp
  have "2 * length (skip_ws r1) + 1 \<le> n"
    using n s l1 by simp
  then have v: "parse_value n (skip_ws r1) \<noteq> Inl RecursionError"
    by (rule V)
  with a s q k w1 col obtain v0 r2 where p: "parse_value n (skip_ws r1) = Inr (v0, r2)"
    by (cases "parse_value n (skip_ws r1)") (auto split: prod.splits)
  have r2: "length r2 < length (skip_ws r1)"
    using p by (rule parse_value_rest)
  from a s q k w1 col p obtain d ds where w2: "skip_ws r2 = d # ds"
    by (cases "skip_ws r2") auto
  with a s q k w1 col p have
    "parse_members n (skip_ws ds) (dict_set key v0 acc) = Inl RecursionError"
    by (auto split: if_splits)
  moreover have "2 * length (skip_ws ds) + 2 \<le> n"
    using skip_ws_length [of ds] skip_ws_Cons_rest(2) [OF w2] r2 l1 n s by simp
  ultimately show False using M by blast
qed

lemma parse_fuel:
  "(\<forall>s. 2 * length s + 1 \<le> n \<longrightarrow> parse_value n s \<noteq> Inl RecursionError) \<and>
   (\<forall>s acc. 2 * length s + 2 \<le> n \<longrightarrow> parse_elems n s acc \<noteq> Inl RecursionError) \<and>
   (\<forall>s acc. 2 * length s + 2 \<le> n \<longrightarrow> parse_members n s acc \<noteq> Inl RecursionError)"
proof (induction n)
  case 0
  show ?case by simp
next
  case (Suc n)
  have V: "parse_value n s \<noteq> Inl RecursionError" if "2 * length s + 1 \<le> n" for s
    using Suc.IH that by blast
  have E: "parse_elems n s acc \<noteq> Inl RecursionError" if "2 * length s + 2 \<le> n" for s acc
    using Suc.IH that by blast
  have M: "parse_members n s acc \<noteq> Inl RecursionError" if "2 * length s + 2 \<le> n" for s acc
    using Suc.IH that by blast
  have 1: "parse_value (Suc n) s \<noteq> Inl RecursionError" if "2 * length s + 1 \<le> Suc n" for s
    using E M that by (rule fuel_value_step)
  have 2: "parse_elems (Suc n) s acc \<noteq> Inl RecursionError" if "2 * length s + 2 \<le> Suc n" for s acc
    using V E that by (rule fuel_elems_step)
  have 3: "parse_members (Suc n) s acc \<noteq> Inl RecursionError" if "2 * length s + 2 \<le> Suc n" for s acc
    using V M that by (rule fuel_members_step)
  from 1 2 3 show ?case by blast
qed

lemma json_loads_fuel: "json_loads s \<noteq> Inl RecursionError"
proof -
  define fuel where "fuel = 2 * length s + 2"
  have "2 * length (skip_ws s) + 1 \<le> fuel"
    using skip_ws_length [of s] by (simp add: fuel_def)
  with parse_fuel [of fuel] have p: "parse_value fuel (skip_ws s) \<noteq> Inl RecursionError"
    by blast
  have j: "json_loads s =
          (case parse_value fuel (skip_ws s) of
             Inl e \<Rightarrow> Inl e
           | Inr (v, r) \<Rightarrow> if skip_ws r = [] then Inr v else Inl JSONDecodeError)"
    by (simp only: json_loads_def fuel_def)
  show ?thesis
  proof (cases "parse_value fuel (skip_ws s)")
    case (Inl e)
    with p j show ?thesis by simp
  next
    case (Inr vr)
    with j show ?thesis by (cases vr) simp
  qed
qed

section \<open>The fallback generator is a fixed template\<close>

text \<open>
  C6. For every skill name the fallback generator returns exactly seven task strings,
  the seven fixed templates with the skill name put in (study fundamentals, complete a
  tutorial, practice exercises, build a project, read documentation, engage community,
  build a portfolio piece). The result is a function of the skill name alone.
\<close>

theorem fallback_tasks_seven_templates:
  "length (fallback_tasks skill) = 7 \<and>
   fallback_tasks skill ! 0 = ''Study '' @ skill @ '' fundamentals and core concepts'' \<and>
   fallback_tasks skill ! 1 = ''Complete online '' @ skill @ '' tutorial or course'' \<and>
   fallback_tasks skill ! 2 = ''Practice '' @ skill @ '' with hands-on exercises'' \<and>
   fallback_tasks skill ! 3 = ''Build a small project using '' @ skill \<and>
   fallback_tasks skill ! 4 = ''Read '' @ skill @ '' documentation and best practices'' \<and>
   fallback_tasks skill ! 5 = ''Join '' @ skill @ '' community and participate in discussions'' \<and>
   fallback_tasks skill ! 6 = ''Create a portfolio piece showcasing '' @ skill"
  by (simp add: fallback_tasks_def)

section \<open>Malformed completions\<close>

lemma dict_get_non_dict: "\<not> is_dict v \<Longrightarrow> dict_get v k d = Inl AttributeError"
  by (cases v) simp_all

lemma dict_get_dict: "is_dict v \<Longrightarrow> \<exists>x. dict_get v k d = Inr x"
  by (cases v) simp_all

lemma is_dict_iff: "is_dict v \<longleftrightarrow> (\<exists>kvs. v = JObj kvs)"
  by (cases v) simp_all

lemma extract_field_object:
  "loads (json_candidate t) = Inr (JObj kvs) \<Longrightarrow>
   extract_field loads t key dflt = (case map_of kvs key of None \<Rightarrow> dflt | Some v \<Rightarrow> v)"
  by (simp add: extract_field_def)

lemma extract_field_default:
  "\<forall>kvs. loads (json_candidate t) \<noteq> Inr (JObj kvs) \<Longrightarrow> extract_field loads t key dflt = dflt"
proof (cases "loads (json_candidate t)")
  case (Inl e)
  then show ?thesis by (simp add: extract_field_def)
next
  case (Inr v)
  assume "\<forall>kvs. loads (json_candidate t) \<noteq> Inr (JObj kvs)"
  with Inr have "\<not> is_dict v" by (simp add: is_dict_iff)
  with Inr show ?thesis by (simp add: extract_field_def dict_get_non_dict)
qed

lemma analyze_parse_object:
  "loads (json_candidate (strip_fences t)) = Inr (JObj kvs) \<Longrightarrow>
   analyze_parse loads t =
     Inr (JObj [(''skills'', case map_of kvs ''skills'' of None \<Rightarrow> JArr [] | Some v \<Rightarrow> v),
                (''years_experience'', case map_of kvs ''years_experience'' of None \<Rightarrow> JNull | Some v \<Rightarrow> v),
                (''role_suggestions'', case map_of kvs ''role_suggestions'' of None \<Rightarrow> JArr [] | Some v \<Rightarrow> v)])"
  by (simp add: analyze_parse_def Let_def)

lemma analyze_parse_decode_error:
  "loads (json_candidate (strip_fences t)) = Inl JSONDecodeError \<Longrightarrow>
   analyze_parse loads t =
     Inr (JObj [(''skills'', JArr []), (''years_experience'', JNull), (''role_suggestions'', JArr []),
                (''error'', JStr ''Failed to parse LLM response as JSON''),
                (''raw_response'', JStr (take 500 (strip_fences t)))])"
  by (simp add: analyze_parse_def Let_def)

lemma analyze_parse_non_object:
  "loads (json_candidate (strip_fences t)) = Inr v \<Longrightarrow> \<not> is_dict v \<Longrightarrow>
   analyze_parse loads t = Inl ValueError"
  by (simp add: analyze_parse_def Let_def)

lemma analyze_parse_other_error:
  "loads (json_candidate (strip_fences t)) = Inl e \<Longrightarrow> e \<noteq> JSONDecodeError \<Longrightarrow>
   analyze_parse loads t = Inl e"
  by (simp add: analyze_parse_def Let_def)

lemma analyze_parse_raises_iff:
  "(\<exists>e. analyze_parse loads t = Inl e) \<longleftrightarrow>
     (\<exists>v. loads (json_candidate (strip_fences t)) = Inr v \<and> \<not> is_dict v) \<or>
     (\<exists>e. loads (json_candidate (strip_fences t)) = Inl e \<and> e \<noteq> JSONDecodeError)"
proof (cases "loads (json_candidate (strip_fences t))")
  case (Inl e)
  then show ?thesis
    by (cases "e = JSONDecodeError") (simp_all add: analyze_parse_decode_error analyze_parse_other_error)
next
  case (Inr v)
  show ?thesis
  proof (cases "is_dict v")
    case True
    then obtain kvs where "v = JObj kvs" by (auto simp: is_dict_iff)
    with Inr show ?thesis by (simp add: analyze_parse_object)
  next
    case False
    with Inr show ?thesis by (simp add: analyze_parse_non_object)
  qed
qed

text \<open>
  C1, as the code has it. The extraction of the skill-extraction, missing-skills and
  task stages returns the caller's default for every completion whose candidate text
  does not parse to an object; it has no way to raise. The extraction of the
  skill-analysis endpoint returns the defaults, with an error note and the first 500
  characters of the text, whenever the parser raises \<^verbatim>\<open>JSONDecodeError\<close>. It raises
  exactly when the candidate parses to a value that is not an object (the
  \<^verbatim>\<open>ValueError\<close> of line 148) or the parser raises another exception.
\<close>

theorem extraction_degrades_to_defaults:
  "((\<forall>kvs. loads (json_candidate t) \<noteq> Inr (JObj kvs)) \<longrightarrow>
      extract_field loads t key dflt = dflt) \<and>
   (loads (json_candidate (strip_fences t)) = Inl JSONDecodeError \<longrightarrow>
      analyze_parse loads t =
        Inr (JObj [(''skills'', JArr []), (''years_experience'', JNull),
                   (''role_suggestions'', JArr []),
                   (''error'', JStr ''Failed to parse LLM response as JSON''),
                   (''raw_response'', JStr (take 500 (strip_fences t)))])) \<and>
   ((\<exists>e. analyze_parse loads t = Inl e) \<longleftrightarrow>
      (\<exists>v. loads (json_candidate (strip_fences t)) = Inr v \<and> \<not> is_dict v) \<or>
      (\<exists>e. loads (json_candidate (strip_fences t)) = Inl e \<and> e \<noteq> JSONDecodeError))"
  using extract_field_default [of loads t key dflt] analyze_parse_decode_error [of loads t]
    analyze_parse_raises_iff [of loads t]
  by blast

text \<open>
  The three malformed completions of the specification: truncated JSON, the empty
  string, and prose without braces.
\<close>

lemma malformed_candidates:
  \<open>json_loads (json_candidate ''{"skills": ["Python", "SQ'') = Inl JSONDecodeError \<and>
   json_loads (json_candidate (strip_fences ''{"skills": ["Python", "SQ'')) = Inl JSONDecodeError \<and>
   strip_fences ''{"skills": ["Python", "SQ'' = ''{"skills": ["Python", "SQ'' \<and>
   json_loads (json_candidate []) = Inl JSONDecodeError \<and>
   json_loads (json_candidate (strip_fences [])) = Inl JSONDecodeError \<and>
   strip_fences [] = [] \<and>
   json_loads (json_candidate ''I cannot help with that.'') = Inl JSONDecodeError \<and>
   json_loads (json_candidate (strip_fences ''I cannot help with that.'')) = Inl JSONDecodeError \<and>
   strip_fences ''I cannot help with that.'' = ''I cannot help with that.''\<close>
  by code_simp

theorem extraction_degrades_to_defaults_witness:
  \<open>extract_field json_loads ''{"skills": ["Python", "SQ'' ''skills'' (JArr []) = JArr [] \<and>
   analyze_parse json_loads ''{"skills": ["Python", "SQ'' =
     Inr (JObj [(''skills'', JArr []), (''years_experience'', JNull),
                (''role_suggestions'', JArr []),
                (''error'', JStr ''Failed to parse LLM response as JSON''),
                (''raw_response'', JStr ''{"skills": ["Python", "SQ'')]) \<and>
   extract_field json_loads [] ''weekly_tasks'' (JArr []) = JArr [] \<and>
   analyze_parse json_loads [] =
     Inr (JObj [(''skills'', JArr []), (''years_experience'', JNull),
                (''role_suggestions'', JArr []),
                (''error'', JStr ''Failed to parse LLM response as JSON''),
                (''raw_response'', JStr [])]) \<and>
   extract_field json_loads ''I cannot help with that.'' ''missing_skills'' (JArr []) = JArr [] \<and>
   analyze_parse json_loads ''I cannot help with that.'' =
     Inr (JObj [(''skills'', JArr []), (''years_experience'', JNull),
                (''role_suggestions'', JArr []),
                (''error'', JStr ''Failed to parse LLM response as JSON''),
                (''raw_response'', JStr ''I cannot help with that.'')])\<close>
  using extraction_degrades_to_defaults
          [of json_loads \<open>''{"skills": ["Python", "SQ''\<close> \<open>''skills''\<close> \<open>JArr []\<close>]
        extraction_degrades_to_defaults
          [of json_loads \<open>[]\<close> \<open>''weekly_tasks''\<close> \<open>JArr []\<close>]
        extraction_degrades_to_defaults
          [of json_loads \<open>''I cannot help with that.''\<close> \<open>''missing_skills''\<close> \<open>JArr []\<close>]
        malformed_candidates
  by simp

text \<open>
  The completion \<^verbatim>\<open>[1]\<close> parses to a list: the extraction of \<^verbatim>\<open>analyze_skills\<close> raises,
  and the endpoint answers with status 500.
\<close>

theorem analyze_skills_non_object_server_error:
  "analyze_parse json_loads ''[1]'' = Inl ValueError \<and>
   fst (analyze_skills json_loads scripted Map.empty
          \<lparr>resume_text = Some ''Five years of Python'', resume_id = None, job_description = None\<rparr>
          ([completion_response ''[1]''], [])) = Inl (HTTPException 500)"
  by code_simp

section \<open>A completion holding one object\<close>

lemma single_object_candidates:
  assumes "CHR ''{'' \<notin> set pre" "CHR ''}'' \<notin> set suf"
  shows "json_candidate (py_strip (pre @ (CHR ''{'' # mid @ [CHR ''}'']) @ suf)) = CHR ''{'' # mid @ [CHR ''}'']"
    and "json_candidate (strip_fences (py_strip (pre @ (CHR ''{'' # mid @ [CHR ''}'']) @ suf)))
         = CHR ''{'' # mid @ [CHR ''}'']"
proof -
  let ?t = "pre @ (CHR ''{'' # mid @ [CHR ''}'']) @ suf"
  have p: "has_brace_pair ?t" and c: "json_candidate ?t = CHR ''{'' # mid @ [CHR ''}'']"
    using assms by (rule candidate_single_object)+
  have p': "has_brace_pair (py_strip ?t)"
    using p by (simp only: candidate_py_strip(1))
  show 1: "json_candidate (py_strip ?t) = CHR ''{'' # mid @ [CHR ''}'']"
    using candidate_py_strip(2) [OF p] c by simp
  show "json_candidate (strip_fences (py_strip ?t)) = CHR ''{'' # mid @ [CHR ''}'']"
    using candidate_strip_fences(2) [OF p'] 1 by simp
qed

text \<open>
  C3, as the code has it. Take a completion that is some text without an opening
  brace, the text \<open>obj\<close> of an object that the parser accepts, and some text without
  a closing brace; prose and code-fence markers are such text. For every such
  completion, stripped as lines 124 and 206 strip it, the substring from the first
  opening brace to the last closing brace is \<open>obj\<close>, with and without the removal of
  the fence markers; every extraction stage returns, for each field it asks for, the
  value the object has for it, and the default where the object has none.
\<close>

theorem single_object_fields_recovered:
  assumes "CHR ''{'' \<notin> set pre" and "CHR ''}'' \<notin> set suf"
    and "obj = CHR ''{'' # mid @ [CHR ''}'']"
    and "loads obj = Inr (JObj kvs)"
    and "analysis_text = py_strip (pre @ obj @ suf)"
  shows "json_candidate analysis_text = obj \<and>
         json_candidate (strip_fences analysis_text) = obj \<and>
         extract_field loads analysis_text key dflt =
           (case map_of kvs key of None \<Rightarrow> dflt | Some v \<Rightarrow> v) \<and>
         analyze_parse loads analysis_text =
           Inr (JObj [(''skills'', case map_of kvs ''skills'' of None \<Rightarrow> JArr [] | Some v \<Rightarrow> v),
                      (''years_experience'',
                         case map_of kvs ''years_experience'' of None \<Rightarrow> JNull | Some v \<Rightarrow> v),
                      (''role_suggestions'',
                         case map_of kvs ''role_suggestions'' of None \<Rightarrow> JArr [] | Some v \<Rightarrow> v)])"
proof -
  have 1: "json_candidate analysis_text = obj"
    using single_object_candidates(1) [OF assms(1,2)] assms(3,5) by simp
  have 2: "json_candidate (strip_fences analysis_text) = obj"
    using single_object_candidates(2) [OF assms(1,2)] assms(3,5) by simp
  have 3: "extract_field loads analysis_text key dflt =
           (case map_of kvs key of None \<Rightarrow> dflt | Some v \<Rightarrow> v)"
    using 1 assms(4) by (simp add: extract_field_object)
  have 4: "loads (json_candidate (strip_fences analysis_text)) = Inr (JObj kvs)"
    using 2 assms(4) by simp
  have 5: "analyze_parse loads analysis_text =
           Inr (JObj [(''skills'', case map_of kvs ''skills'' of None \<Rightarrow> JArr [] | Some v \<Rightarrow> v),
                      (''years_experience'',
                         case map_of kvs ''years_experience'' of None \<Rightarrow> JNull | Some v \<Rightarrow> v),
                      (''role_suggestions'',
                         case map_of kvs ''role_suggestions'' of None \<Rightarrow> JArr [] | Some v \<Rightarrow> v)])"
    using 4 by (rule analyze_parse_object [of loads analysis_text kvs])
  show ?thesis
    using 1 2 3 5 by simp
qed

text \<open>The two scenarios of the specification: a fenced object and an object in prose.\<close>

lemma scenario_objects_parsed:
  \<open>json_loads ''{"skills": ["Python","SQL"]}'' =
     Inr (JObj [(''skills'', JArr [JStr ''Python'', JStr ''SQL''])]) \<and>
   json_loads ''{"missing_skills": ["Go"]}'' =
     Inr (JObj [(''missing_skills'', JArr [JStr ''Go''])])\<close>
  by code_simp

theorem single_object_fields_recovered_witness:
  \<open>analyze_parse json_loads
     (py_strip (''```json\<newline>'' @ ''{"skills": ["Python","SQL"]}'' @ ''\<newline>```'')) =
     Inr (JObj [(''skills'', JArr [JStr ''Python'', JStr ''SQL'']),
                (''years_experience'', JNull),
                (''role_suggestions'', JArr [])]) \<and>
   extract_field json_loads
     (py_strip (''```json\<newline>'' @ ''{"skills": ["Python","SQL"]}'' @ ''\<newline>```''))
     ''skills'' (JArr []) = JArr [JStr ''Python'', JStr ''SQL''] \<and>
   extract_field json_loads
     (py_strip (''Sure! Here's the data: '' @ ''{"missing_skills": ["Go"]}'' @ '' Hope that helps.''))
     ''missing_skills'' (JArr []) = JArr [JStr ''Go'']\<close>
  using single_object_fields_recovered
          [of \<open>''```json\<newline>''\<close> \<open>''\<newline>```''\<close> \<open>''{"skills": ["Python","SQL"]}''\<close>
              \<open>''"skills": ["Python","SQL"]''\<close> json_loads
              \<open>[(''skills'', JArr [JStr ''Python'', JStr ''SQL''])]\<close>
              \<open>py_strip (''```json\<newline>'' @ ''{"skills": ["Python","SQL"]}'' @ ''\<newline>```'')\<close>
              \<open>''skills''\<close> \<open>JArr []\<close>]
        single_object_fields_recovered
          [of \<open>''Sure! Here's the data: ''\<close> \<open>'' Hope that helps.''\<close>
              \<open>''{"missing_skills": ["Go"]}''\<close> \<open>''"missing_skills": ["Go"]''\<close> json_loads
              \<open>[(''missing_skills'', JArr [JStr ''Go''])]\<close>
              \<open>py_strip (''Sure! Here's the data: '' @ ''{"missing_skills": ["Go"]}'' @ '' Hope that helps.'')\<close>
              \<open>''missing_skills''\<close> \<open>JArr []\<close>]
        scenario_objects_parsed
  by simp

text \<open>
  Prose with braces of its own: the completion holds one well-formed object, but the
  slice from the first opening brace to the last closing brace starts in the prose.
  The parse fails and every stage returns its defaults.
\<close>

theorem braces_in_prose_hide_object:
  \<open>json_loads ''{"skills": ["Go"]}'' = Inr (JObj [(''skills'', JArr [JStr ''Go''])]) \<and>
   json_candidate (py_strip ''Here is the JSON {as requested}: {"skills": ["Go"]}'')
     = ''{as requested}: {"skills": ["Go"]}'' \<and>
   extract_field json_loads
     (py_strip ''Here is the JSON {as requested}: {"skills": ["Go"]}'')
     ''skills'' (JArr []) = JArr [] \<and>
   analyze_parse json_loads
     (py_strip ''Here is the JSON {as requested}: {"skills": ["Go"]}'')
     = Inr (JObj [(''skills'', JArr []), (''years_experience'', JNull),
                  (''role_suggestions'', JArr []),
                  (''error'', JStr ''Failed to parse LLM response as JSON''),
                  (''raw_response'', JStr ''Here is the JSON {as requested}: {"skills": ["Go"]}'')])\<close>
  by code_simp

section \<open>Extraction with and without the removal of code fences\<close>

lemma analyze_parse_normal_cases:
  assumes "analyze_parse loads t = Inr r"
  shows "loads (json_candidate (strip_fences t)) = Inl JSONDecodeError \<or>
         (\<exists>kvs. loads (json_candidate (strip_fences t)) = Inr (JObj kvs))"
proof (cases "loads (json_candidate (strip_fences t))")
  case (Inl e)
  then show ?thesis
    using assms analyze_parse_other_error [of loads t e] by (cases "e = JSONDecodeError") simp_all
next
  case (Inr v)
  then show ?thesis
    using assms analyze_parse_non_object [of loads t v] by (cases "is_dict v") (simp_all add: is_dict_iff)
qed

lemma fence_stripping_same_field:
  assumes ok: "analyze_parse loads t = Inr r"
    and whole: "\<forall>kvs. loads t = Inr (JObj kvs) \<longrightarrow> has_brace_pair t"
    and stripped: "\<forall>kvs. loads (strip_fences t) = Inr (JObj kvs) \<longrightarrow> has_brace_pair t"
    and key: "key = ''skills'' \<and> dflt = JArr [] \<or> key = ''years_experience'' \<and> dflt = JNull \<or>
              key = ''role_suggestions'' \<and> dflt = JArr []"
  shows "dict_get r key dflt = Inr (extract_field loads t key dflt)"
proof (cases "has_brace_pair t")
  case True
  then have c: "json_candidate (strip_fences t) = json_candidate t"
    by (rule candidate_strip_fences(2))
  from analyze_parse_normal_cases [OF ok] show ?thesis
  proof
    assume e: "loads (json_candidate (strip_fences t)) = Inl JSONDecodeError"
    then have "extract_field loads t key dflt = dflt"
      using c by (simp add: extract_field_def)
    moreover have "dict_get r key dflt = Inr dflt"
      using ok analyze_parse_decode_error [of loads t, OF e] key by auto
    ultimately show ?thesis by simp
  next
    assume "\<exists>kvs. loads (json_candidate (strip_fences t)) = Inr (JObj kvs)"
    then obtain kvs where o: "loads (json_candidate (strip_fences t)) = Inr (JObj kvs)" by blast
    then have "extract_field loads t key dflt = (case map_of kvs key of None \<Rightarrow> dflt | Some v \<Rightarrow> v)"
      using c by (simp add: extract_field_object)
    moreover have "dict_get r key dflt = Inr (case map_of kvs key of None \<Rightarrow> dflt | Some v \<Rightarrow> v)"
      using ok analyze_parse_object [of loads t kvs] o key by auto
    ultimately show ?thesis by simp
  qed
next
  case False
  then have c1: "json_candidate t = t"
    by (rule json_candidate_no_pair)
  have "\<not> has_brace_pair (strip_fences t)"
    using False by (simp add: candidate_strip_fences(1))
  then have c2: "json_candidate (strip_fences t) = strip_fences t"
    by (rule json_candidate_no_pair)
  have n1: "\<forall>kvs. loads (json_candidate t) \<noteq> Inr (JObj kvs)"
    using whole False c1 by auto
  have n2: "\<forall>kvs. loads (json_candidate (strip_fences t)) \<noteq> Inr (JObj kvs)"
    using stripped False c2 by auto
  have e: "loads (json_candidate (strip_fences t)) = Inl JSONDecodeError"
    using analyze_parse_normal_cases [OF ok] n2 by blast
  have "extract_field loads t key dflt = dflt"
    using n1 by (rule extract_field_default)
  moreover have "dict_get r key dflt = Inr dflt"
    using ok analyze_parse_decode_error [of loads t, OF e] key by auto
  ultimately show ?thesis by simp
qed

text \<open>
  C5, as the code has it. On a completion with an opening brace before a closing brace
  the extraction of \<^verbatim>\<open>analyze_skills\<close>, which removes code-fence markers first, parses
  the same candidate text as the extraction of the other stages, which does not.
  Whenever the extraction of \<^verbatim>\<open>analyze_skills\<close> returns normally, each of its three
  fields has the value the other extraction computes for that field and default,
  for every parser that, like \<^verbatim>\<open>json.loads\<close>, yields an object only from a text with such
  a pair of braces (\<open>json_loads_object_has_brace_pair\<close> shows it of the parser
  model). The two differ where the text parses to a value that is not an object:
  \<^verbatim>\<open>analyze_skills\<close> raises, the other stages return the default.
\<close>

theorem fence_stripping_same_fields:
  assumes "analyze_parse loads t = Inr r"
    and "\<forall>kvs. loads t = Inr (JObj kvs) \<longrightarrow> has_brace_pair t"
    and "\<forall>kvs. loads (strip_fences t) = Inr (JObj kvs) \<longrightarrow> has_brace_pair t"
  shows "(has_brace_pair t \<longrightarrow> json_candidate (strip_fences t) = json_candidate t) \<and>
         dict_get r ''skills'' (JArr []) = Inr (extract_field loads t ''skills'' (JArr [])) \<and>
         dict_get r ''years_experience'' JNull = Inr (extract_field loads t ''years_experience'' JNull) \<and>
         dict_get r ''role_suggestions'' (JArr []) =
           Inr (extract_field loads t ''role_suggestions'' (JArr []))"
proof -
  have 0: "has_brace_pair t \<longrightarrow> json_candidate (strip_fences t) = json_candidate t"
    by (simp add: candidate_strip_fences(2))
  have 1: "dict_get r ''skills'' (JArr []) = Inr (extract_field loads t ''skills'' (JArr []))"
    using fence_stripping_same_field [OF assms, where key = "''skills''" and dflt = "JArr []"] by simp
  have 2: "dict_get r ''years_experience'' JNull = Inr (extract_field loads t ''years_experience'' JNull)"
    using fence_stripping_same_field [OF assms, where key = "''years_experience''" and dflt = JNull] by simp
  have 3: "dict_get r ''role_suggestions'' (JArr []) =
           Inr (extract_field loads t ''role_suggestions'' (JArr []))"
    using fence_stripping_same_field [OF assms, where key = "''role_suggestions''" and dflt = "JArr []"] by simp
  from 0 1 2 3 show ?thesis by simp
qed

lemma fenced_object_run:
  \<open>analyze_parse json_loads ''```json\<newline>{"skills": ["Python","SQL"], "years_experience": "5 years"}\<newline>```'' =
     Inr (JObj [(''skills'', JArr [JStr ''Python'', JStr ''SQL'']),
                (''years_experience'', JStr ''5 years''),
                (''role_suggestions'', JArr [])]) \<and>
   has_brace_pair ''```json\<newline>{"skills": ["Python","SQL"], "years_experience": "5 years"}\<newline>```'' \<and>
   analyze_parse json_loads ''I cannot help with that.'' =
     Inr (JObj [(''skills'', JArr []), (''years_experience'', JNull),
                (''role_suggestions'', JArr []),
                (''error'', JStr ''Failed to parse LLM response as JSON''),
                (''raw_response'', JStr ''I cannot help with that.'')]) \<and>
   json_loads ''I cannot help with that.'' = Inl JSONDecodeError \<and>
   json_loads (strip_fences ''I cannot help with that.'') = Inl JSONDecodeError\<close>
  by code_simp

theorem fence_stripping_same_fields_witness:
  \<open>extract_field json_loads
      ''```json\<newline>{"skills": ["Python","SQL"], "years_experience": "5 years"}\<newline>```''
      ''skills'' (JArr []) = JArr [JStr ''Python'', JStr ''SQL''] \<and>
   extract_field json_loads
      ''```json\<newline>{"skills": ["Python","SQL"], "years_experience": "5 years"}\<newline>```''
      ''years_experience'' JNull = JStr ''5 years'' \<and>
   extract_field json_loads
      ''```json\<newline>{"skills": ["Python","SQL"], "years_experience": "5 years"}\<newline>```''
      ''role_suggestions'' (JArr []) = JArr [] \<and>
   extract_field json_loads ''I cannot help with that.'' ''skills'' (JArr []) = JArr [] \<and>
   extract_field json_loads ''I cannot help with that.'' ''years_experience'' JNull = JNull\<close>
  using fence_stripping_same_fields
          [of json_loads
              \<open>''```json\<newline>{"skills": ["Python","SQL"], "years_experience": "5 years"}\<newline>```''\<close>
              \<open>JObj [(''skills'', JArr [JStr ''Python'', JStr ''SQL'']),
                    (''years_experience'', JStr ''5 years''),
                    (''role_suggestions'', JArr [])]\<close>]
        fence_stripping_same_fields
          [of json_loads \<open>''I cannot help with that.''\<close>
              \<open>JObj [(''skills'', JArr []), (''years_experience'', JNull),
                    (''role_suggestions'', JArr []),
                    (''error'', JStr ''Failed to parse LLM response as JSON''),
                    (''raw_response'', JStr ''I cannot help with that.'')]\<close>]
        fenced_object_run
  by simp

text \<open>
  The parser model meets the condition on the parser for every text, so with it the
  agreement needs no condition but the normal return.
\<close>

lemma fence_stripping_same_field_json_loads:
  assumes "analyze_parse json_loads t = Inr r"
    and "key = ''skills'' \<and> dflt = JArr [] \<or> key = ''years_experience'' \<and> dflt = JNull \<or>
         key = ''role_suggestions'' \<and> dflt = JArr []"
  shows "dict_get r key dflt = Inr (extract_field json_loads t key dflt)"
proof -
  have 1: "\<forall>kvs. json_loads t = Inr (JObj kvs) \<longrightarrow> has_brace_pair t"
    by (auto dest: json_loads_object_has_brace_pair)
  have 2: "\<forall>kvs. json_loads (strip_fences t) = Inr (JObj kvs) \<longrightarrow> has_brace_pair t"
    using json_loads_object_has_brace_pair [of "strip_fences t"]
    by (auto simp: candidate_strip_fences(1))
  from assms(1) 1 2 assms(2) show ?thesis
    by (rule fence_stripping_same_field)
qed

text \<open>
  A fenced list: \<^verbatim>\<open>analyze_skills\<close> removes the fence, parses a list and raises; the
  other stages parse the text as it is, fail, and return the default.
\<close>

theorem fenced_list_extractions_differ:
  \<open>analyze_parse json_loads ''```json\<newline>["Python"]\<newline>```'' = Inl ValueError \<and>
   extract_field json_loads ''```json\<newline>["Python"]\<newline>```'' ''skills'' (JArr []) = JArr []\<close>
  by code_simp

section \<open>Requests without input\<close>

lemma resolve_resume_refused:
  assumes "resume_id request = None \<or> resume_id request = Some []"
    and "resume_text request = None \<or> resume_text request = Some []"
  shows "resolve_resume files request = Inl (HTTPException 400)"
  using assms by (auto simp: resolve_resume_def truthy_str_def)

text \<open>
  C8. A request to \<^verbatim>\<open>analyze_skills\<close>, \<^verbatim>\<open>skill_gap_analysis\<close> or
  \<^verbatim>\<open>weekly_learning_task_generator\<close> that gives neither a resume text nor a resume
  identifier (absent or empty), and for the task generator no missing-skills list
  either, is refused with status 400. The backend is left in the state it was in: no
  call was made.
\<close>

theorem missing_input_rejected_before_backend:
  assumes "resume_id r1 = None \<or> resume_id r1 = Some []"
    and "resume_text r1 = None \<or> resume_text r1 = Some []"
    and "resume_id r2 = None \<or> resume_id r2 = Some []"
    and "resume_text r2 = None \<or> resume_text r2 = Some []"
    and "resume_id r3 = None \<or> resume_id r3 = Some []"
    and "resume_text r3 = None \<or> resume_text r3 = Some []"
    and "missing_skills r3 = None \<or> missing_skills r3 = Some []"
  shows "analyze_skills loads backend files r1 b0 = (Inl (HTTPException 400), b0) \<and>
         skill_gap_analysis loads backend files r2 b0 = (Inl (HTTPException 400), b0) \<and>
         weekly_learning_task_generator loads backend files r3 b0 = (Inl (HTTPException 400), b0)"
proof -
  have 1: "resolve_resume files r1 = Inl (HTTPException 400)"
    using assms(1,2) by (rule resolve_resume_refused)
  have 2: "resolve_resume files r2 = Inl (HTTPException 400)"
    using assms(3,4) by (rule resolve_resume_refused)
  have 3: "resolve_resume files r3 = Inl (HTTPException 400)"
    using assms(5,6) by (rule resolve_resume_refused)
  have a: "analyze_skills loads backend files r1 b0 = (Inl (HTTPException 400), b0)"
    by (simp add: analyze_skills_def 1)
  have b: "skill_gap_analysis loads backend files r2 b0 = (Inl (HTTPException 400), b0)"
    by (simp add: skill_gap_analysis_def 2)
  have c: "weekly_learning_task_generator loads backend files r3 b0 = (Inl (HTTPException 400), b0)"
    using assms(7) by (auto simp: weekly_learning_task_generator_def 3)
  from a b c show ?thesis by simp
qed

theorem missing_input_rejected_before_backend_witness:
  "analyze_skills json_loads scripted Map.empty
     \<lparr>resume_text = None, resume_id = None, job_description = Some ''Data engineer''\<rparr> ([], [])
     = (Inl (HTTPException 400), ([], [])) \<and>
   skill_gap_analysis json_loads scripted Map.empty
     \<lparr>resume_text = None, resume_id = None, target_role = ''Data engineer''\<rparr> ([], [])
     = (Inl (HTTPException 400), ([], [])) \<and>
   weekly_learning_task_generator json_loads scripted Map.empty
     \<lparr>resume_text = None, resume_id = None, missing_skills = None\<rparr> ([], [])
     = (Inl (HTTPException 400), ([], []))"
  using missing_input_rejected_before_backend
          [of "\<lparr>resume_text = None, resume_id = None, job_description = Some ''Data engineer''\<rparr>"
              "\<lparr>resume_text = None, resume_id = None, target_role = ''Data engineer''\<rparr>"
              "\<lparr>resume_text = None, resume_id = None, missing_skills = None\<rparr>"
              json_loads scripted Map.empty "([], [])"]
  by simp

text \<open>
  C10. In \<^verbatim>\<open>weekly_learning_task_generator\<close> an empty missing-skills list is handled as
  an absent one: the two requests have the same outcome and leave the backend in the
  same state, and without a resume text and a resume identifier the request is refused
  with status 400.
\<close>

theorem empty_missing_skills_as_absent:
  "weekly_learning_task_generator loads backend files (request\<lparr>missing_skills := Some []\<rparr>) b0 =
     weekly_learning_task_generator loads backend files (request\<lparr>missing_skills := None\<rparr>) b0 \<and>
   ((resume_id request = None \<or> resume_id request = Some []) \<and>
    (resume_text request = None \<or> resume_text request = Some []) \<longrightarrow>
      weekly_learning_task_generator loads backend files (request\<lparr>missing_skills := Some []\<rparr>) b0 =
        (Inl (HTTPException 400), b0))"
proof -
  have 1: "resolve_resume files (request\<lparr>missing_skills := Some []\<rparr>) =
           resolve_resume files (request\<lparr>missing_skills := None\<rparr>)"
    by (simp add: resolve_resume_def)
  have 2: "weekly_learning_task_generator loads backend files (request\<lparr>missing_skills := Some []\<rparr>) b0 =
     weekly_learning_task_generator loads backend files (request\<lparr>missing_skills := None\<rparr>) b0"
    by (simp add: weekly_learning_task_generator_def 1)
  have 3: "(resume_id request = None \<or> resume_id request = Some []) \<and>
    (resume_text request = None \<or> resume_text request = Some []) \<longrightarrow>
      weekly_learning_task_generator loads backend files (request\<lparr>missing_skills := Some []\<rparr>) b0 =
        (Inl (HTTPException 400), b0)"
  proof
    assume a: "(resume_id request = None \<or> resume_id request = Some []) \<and>
               (resume_text request = None \<or> resume_text request = Some [])"
    have "resolve_resume files (request\<lparr>missing_skills := Some []\<rparr>) = Inl (HTTPException 400)"
      using a by (intro resolve_resume_refused) simp_all
    then show "weekly_learning_task_generator loads backend files (request\<lparr>missing_skills := Some []\<rparr>) b0 =
        (Inl (HTTPException 400), b0)"
      by (simp add: weekly_learning_task_generator_def)
  qed
  from 2 3 show ?thesis by simp
qed

theorem empty_missing_skills_as_absent_witness:
  "weekly_learning_task_generator json_loads scripted Map.empty
     \<lparr>resume_text = None, resume_id = None, missing_skills = Some []\<rparr> ([], [])
   = weekly_learning_task_generator json_loads scripted Map.empty
     \<lparr>resume_text = None, resume_id = None, missing_skills = None\<rparr> ([], []) \<and>
   weekly_learning_task_generator json_loads scripted Map.empty
     \<lparr>resume_text = None, resume_id = None, missing_skills = Some []\<rparr> ([], [])
   = (Inl (HTTPException 400), ([], []))"
proof -
  have "resume_id \<lparr>resume_text = None, resume_id = None, missing_skills = None\<rparr> = None"
    and "resume_text \<lparr>resume_text = None, resume_id = None, missing_skills = None\<rparr> = None"
    and "\<lparr>resume_text = None, resume_id = None, missing_skills = None\<rparr>\<lparr>missing_skills := Some []\<rparr>
         = \<lparr>resume_text = None, resume_id = None, missing_skills = Some []\<rparr>"
    and "\<lparr>resume_text = None, resume_id = None, missing_skills = None\<rparr>\<lparr>missing_skills := None\<rparr>
         = \<lparr>resume_text = None, resume_id = None, missing_skills = None\<rparr>"
    by simp_all
  then show ?thesis
    using empty_missing_skills_as_absent
            [of json_loads scripted Map.empty
                "\<lparr>resume_text = None, resume_id = None, missing_skills = None\<rparr>" "([], [])"]
    by metis
qed

section \<open>The task generator without a missing-skills list\<close>

lemma extract_skills_from_resume_shape:
  "\<exists>extracted. extract_skills_from_resume loads backend resume b0 =
     (JObj [(''skills'', extracted)],
      snd (backend b0 \<lparr>prompt = skills_prompt resume, temperature = 0.3, num_predict = 600\<rparr>))"
  by (auto simp: extract_skills_from_resume_def split: prod.splits sum.splits)

lemma weekly_without_missing_skills:
  assumes "missing_skills request = None \<or> missing_skills request = Some []"
    and "resolve_resume files request = Inr resume"
    and "extract_skills_from_resume loads backend resume b0 = (JObj [(''skills'', extracted)], b1)"
  shows "weekly_learning_task_generator loads backend files request b0 =
           (Inr (gap_result extracted (JArr []) (JArr [])), b1)"
  using assms by (auto simp: weekly_learning_task_generator_def)

text \<open>
  C7. A request to \<^verbatim>\<open>weekly_learning_task_generator\<close> without a missing-skills list,
  whose resume resolves, extracts the skills of that resume and returns them at once
  with an empty missing-skills list and an empty task list. The backend ends in the
  state the one call of the skill extraction left it in: no gap call and no task call
  follow.
\<close>

theorem resume_only_path_returns_after_extraction:
  assumes "missing_skills request = None"
    and "resolve_resume files request = Inr resume"
  shows "\<exists>extracted.
           extract_skills_from_resume loads backend resume b0 =
             (JObj [(''skills'', extracted)],
              snd (backend b0 \<lparr>prompt = skills_prompt resume, temperature = 0.3, num_predict = 600\<rparr>)) \<and>
           weekly_learning_task_generator loads backend files request b0 =
             (Inr (JObj [(''extracted_skills'', extracted),
                         (''missing_skills'', JArr []),
                         (''weekly_tasks'', JArr [])]),
              snd (backend b0 \<lparr>prompt = skills_prompt resume, temperature = 0.3, num_predict = 600\<rparr>))"
proof -
  obtain extracted where e: "extract_skills_from_resume loads backend resume b0 =
     (JObj [(''skills'', extracted)],
      snd (backend b0 \<lparr>prompt = skills_prompt resume, temperature = 0.3, num_predict = 600\<rparr>))"
    using extract_skills_from_resume_shape [of loads backend resume b0] by blast
  have "weekly_learning_task_generator loads backend files request b0 =
          (Inr (gap_result extracted (JArr []) (JArr [])),
           snd (backend b0 \<lparr>prompt = skills_prompt resume, temperature = 0.3, num_predict = 600\<rparr>))"
    using assms(1) by (intro weekly_without_missing_skills [OF _ assms(2) e]) simp
  with e show ?thesis
    by (auto simp: gap_result_def)
qed

text \<open>
  A run against a backend with two answers ready: the first is used, the second is
  still there afterwards, and the only request sent is the skills prompt.
\<close>

lemma resume_only_run:
  \<open>extract_skills_from_resume json_loads scripted ''Ten years of SQL and Python''
     ([completion_response ''{"skills": ["SQL", "Python"]}'',
       completion_response ''{"weekly_tasks": []}''], []) =
     (JObj [(''skills'', JArr [JStr ''SQL'', JStr ''Python''])],
      ([completion_response ''{"weekly_tasks": []}''],
       [\<lparr>prompt = skills_prompt ''Ten years of SQL and Python'', temperature = 0.3, num_predict = 600\<rparr>]))\<close>
  by code_simp


theorem resume_only_path_returns_after_extraction_witness:
  \<open>weekly_learning_task_generator json_loads scripted Map.empty
     \<lparr>resume_text = Some ''Ten years of SQL and Python'', resume_id = None, missing_skills = None\<rparr>
     ([completion_response ''{"skills": ["SQL", "Python"]}'',
       completion_response ''{"weekly_tasks": []}''], []) =
     (Inr (JObj [(''extracted_skills'', JArr [JStr ''SQL'', JStr ''Python'']),
                 (''missing_skills'', JArr []),
                 (''weekly_tasks'', JArr [])]),
      ([completion_response ''{"weekly_tasks": []}''],
       [\<lparr>prompt = skills_prompt ''Ten years of SQL and Python'', temperature = 0.3, num_predict = 600\<rparr>]))\<close>
proof -
  have r: "resolve_resume Map.empty
             \<lparr>resume_text = Some ''Ten years of SQL and Python'', resume_id = None, missing_skills = None\<rparr>
           = Inr ''Ten years of SQL and Python''"
    by (simp add: resolve_resume_def truthy_str_def)
  have m: "missing_skills
             \<lparr>resume_text = Some ''Ten years of SQL and Python'', resume_id = None, missing_skills = None\<rparr>
           = None"
    by simp
  show ?thesis
    using resume_only_path_returns_after_extraction [OF m r, of json_loads scripted
            \<open>([completion_response ''{"skills": ["SQL", "Python"]}'',
               completion_response ''{"weekly_tasks": []}''], [])\<close>]
          resume_only_run
    by auto
qed

section \<open>A backend that cannot be reached\<close>

lemma refused_call:
  "\<forall>b req. fst (backend b req) = Inl ConnectError \<Longrightarrow> \<exists>b1. backend b req = (Inl ConnectError, b1)"
  by (metis prod.collapse)

lemma analyze_skills_unreachable:
  assumes "\<forall>b req. fst (backend b req) = Inl ConnectError"
    and "resolve_resume files request = Inr resume"
  shows "fst (analyze_skills loads backend files request b0) = Inl (HTTPException 503)"
proof -
  obtain b1 where "backend b0 \<lparr>prompt = analysis_prompt resume, temperature = 0.3, num_predict = 800\<rparr>
                   = (Inl ConnectError, b1)"
    using refused_call [OF assms(1)] by blast
  then show ?thesis
    using assms(2) by (simp add: analyze_skills_def)
qed

lemma extract_skills_unreachable:
  assumes "\<forall>b req. fst (backend b req) = Inl ConnectError"
  shows "extract_skills_from_resume loads backend resume b0 =
           (JObj [(''skills'', JArr [])],
            snd (backend b0 \<lparr>prompt = skills_prompt resume, temperature = 0.3, num_predict = 600\<rparr>))"
proof -
  obtain b1 where "backend b0 \<lparr>prompt = skills_prompt resume, temperature = 0.3, num_predict = 600\<rparr>
                   = (Inl ConnectError, b1)"
    using refused_call [OF assms] by blast
  then show ?thesis
    by (simp add: extract_skills_from_resume_def)
qed

lemma skill_gap_analysis_unreachable:
  assumes "\<forall>b req. fst (backend b req) = Inl ConnectError"
    and "resolve_resume files request = Inr resume"
  shows "fst (skill_gap_analysis loads backend files request b0) = Inl (HTTPException 503)"
proof -
  obtain p where p: "gap_prompt (JArr []) (target_role request) = Inr p"
    by (simp add: gap_prompt_def)
  let ?b1 = "snd (backend b0 \<lparr>prompt = skills_prompt resume, temperature = 0.3, num_predict = 600\<rparr>)"
  obtain b2 where c: "backend ?b1 \<lparr>prompt = p, temperature = 0.3, num_predict = 600\<rparr> = (Inl ConnectError, b2)"
    using refused_call [OF assms(1)] by blast
  show ?thesis
    using assms(2) p c by (simp add: skill_gap_analysis_def extract_skills_unreachable [OF assms(1)])
qed

lemma weekly_unreachable:
  assumes "\<forall>b req. fst (backend b req) = Inl ConnectError"
    and "missing_skills request = Some ms" and "ms \<noteq> []" and "list_all is_str ms"
  shows "fst (weekly_learning_task_generator loads backend files request b0) = Inl (HTTPException 503)"
proof -
  obtain b1 where "backend b0 \<lparr>prompt = task_prompt (map the_str ms), temperature = 0.5, num_predict = 1500\<rparr>
                   = (Inl ConnectError, b1)"
    using refused_call [OF assms(1)] by blast
  then show ?thesis
    using assms(2,3,4) by (simp add: weekly_learning_task_generator_def)
qed

lemma weekly_resume_only_unreachable:
  assumes "\<forall>b req. fst (backend b req) = Inl ConnectError"
    and "missing_skills request = None \<or> missing_skills request = Some []"
    and "resolve_resume files request = Inr resume"
  shows "fst (weekly_learning_task_generator loads backend files request b0) =
           Inr (gap_result (JArr []) (JArr []) (JArr []))"
  using weekly_without_missing_skills [OF assms(2,3) extract_skills_unreachable [OF assms(1)]]
  by simp

text \<open>
  C4, as the code has it. When every call to the backend is refused,
  \<^verbatim>\<open>analyze_skills\<close> and \<^verbatim>\<open>skill_gap_analysis\<close> on a resume that resolves, and
  \<^verbatim>\<open>weekly_learning_task_generator\<close> on a non-empty missing-skills list of strings, end
  with status 503. \<^verbatim>\<open>weekly_learning_task_generator\<close> without a missing-skills list
  makes its one call inside \<^verbatim>\<open>_extract_skills_from_resume\<close>, which turns every
  exception into an empty skill list: the request returns normally, with three empty
  lists.
\<close>

theorem unreachable_backend_outcomes:
  assumes "\<forall>b req. fst (backend b req) = Inl ConnectError"
    and "resolve_resume files r1 = Inr resume1"
    and "resolve_resume files r2 = Inr resume2"
    and "missing_skills r3 = Some ms" and "ms \<noteq> []" and "list_all is_str ms"
    and "missing_skills r4 = None \<or> missing_skills r4 = Some []"
    and "resolve_resume files r4 = Inr resume4"
  shows "fst (analyze_skills loads backend files r1 b0) = Inl (HTTPException 503) \<and>
         fst (skill_gap_analysis loads backend files r2 b0) = Inl (HTTPException 503) \<and>
         fst (weekly_learning_task_generator loads backend files r3 b0) = Inl (HTTPException 503) \<and>
         fst (weekly_learning_task_generator loads backend files r4 b0) =
           Inr (JObj [(''extracted_skills'', JArr []),
                      (''missing_skills'', JArr []),
                      (''weekly_tasks'', JArr [])])"
proof -
  have 1: "fst (analyze_skills loads backend files r1 b0) = Inl (HTTPException 503)"
    using assms(1,2) by (rule analyze_skills_unreachable)
  have 2: "fst (skill_gap_analysis loads backend files r2 b0) = Inl (HTTPException 503)"
    using assms(1,3) by (rule skill_gap_analysis_unreachable)
  have 3: "fst (weekly_learning_task_generator loads backend files r3 b0) = Inl (HTTPException 503)"
    using assms(1,4,5,6) by (rule weekly_unreachable)
  have 4: "fst (weekly_learning_task_generator loads backend files r4 b0) =
           Inr (gap_result (JArr []) (JArr []) (JArr []))"
    using assms(1,7,8) by (rule weekly_resume_only_unreachable)
  from 1 2 3 4 show ?thesis by (simp add: gap_result_def)
qed

theorem unreachable_backend_outcomes_witness:
  "fst (analyze_skills json_loads refusing Map.empty
          \<lparr>resume_text = Some ''Ten years of SQL'', resume_id = None, job_description = None\<rparr> 0)
     = Inl (HTTPException 503) \<and>
   fst (skill_gap_analysis json_loads refusing Map.empty
          \<lparr>resume_text = Some ''Ten years of SQL'', resume_id = None, target_role = ''Data engineer''\<rparr> 0)
     = Inl (HTTPException 503) \<and>
   fst (weekly_learning_task_generator json_loads refusing Map.empty
          \<lparr>resume_text = None, resume_id = None, missing_skills = Some [JStr ''Kubernetes'']\<rparr> 0)
     = Inl (HTTPException 503) \<and>
   fst (weekly_learning_task_generator json_loads refusing Map.empty
          \<lparr>resume_text = Some ''Ten years of SQL'', resume_id = None, missing_skills = None\<rparr> 0)
     = Inr (JObj [(''extracted_skills'', JArr []),
                  (''missing_skills'', JArr []),
                  (''weekly_tasks'', JArr [])])"
  using unreachable_backend_outcomes
          [of refusing Map.empty
              "\<lparr>resume_text = Some ''Ten years of SQL'', resume_id = None, job_description = None\<rparr>"
              "''Ten years of SQL''"
              "\<lparr>resume_text = Some ''Ten years of SQL'', resume_id = None, target_role = ''Data engineer''\<rparr>"
              "''Ten years of SQL''"
              "\<lparr>resume_text = None, resume_id = None, missing_skills = Some [JStr ''Kubernetes'']\<rparr>"
              "[JStr ''Kubernetes'']"
              "\<lparr>resume_text = Some ''Ten years of SQL'', resume_id = None, missing_skills = None\<rparr>"
              "''Ten years of SQL''" json_loads 0]
  by (simp add: refusing_def resolve_resume_def truthy_str_def)

text \<open>
  The resume-only request against the refusing backend: one call was made, it was
  refused, and the request returned a normal result.
\<close>

theorem refused_call_returns_success:
  "weekly_learning_task_generator json_loads refusing Map.empty
     \<lparr>resume_text = Some ''Ten years of SQL'', resume_id = None, missing_skills = None\<rparr> 0
   = (Inr (JObj [(''extracted_skills'', JArr []),
                 (''missing_skills'', JArr []),
                 (''weekly_tasks'', JArr [])]), 1) \<and>
   fst (refusing 0 \<lparr>prompt = skills_prompt ''Ten years of SQL'', temperature = 0.3, num_predict = 600\<rparr>)
   = Inl ConnectError"
  by code_simp

section \<open>Skill analysis as a function of the resume text and the completion\<close>

lemma analyze_skills_outcome:
  assumes "resolve_resume files request = Inr resume"
  shows "fst (analyze_skills loads backend files request b0) =
     (case fst (backend b0 \<lparr>prompt = analysis_prompt resume, temperature = 0.3, num_predict = 800\<rparr>) of
        Inl e \<Rightarrow> Inl (http_error e)
      | Inr resp \<Rightarrow>
          if status_code resp \<noteq> 200 then Inl (HTTPException 500)
          else (case completion_text loads resp of
                  Inl e \<Rightarrow> Inl (http_error e)
                | Inr analysis_text \<Rightarrow>
                    (case analyze_parse loads analysis_text of
                       Inl e \<Rightarrow> Inl (http_error e)
                     | Inr result_data \<Rightarrow> Inr result_data)))"
  using assms by (auto simp: analyze_skills_def split: prod.splits sum.splits)

text \<open>
  C9. Two runs of \<^verbatim>\<open>analyze_skills\<close> whose requests resolve to the same resume text
  and whose backends give the same outcome for the analysis prompt of that text have
  the same result, whatever else differs: how the resume was given, the
  job description, the store, the state of the backend. When the completion holds
  an object whose \<^verbatim>\<open>skills\<close> is a list, the result carries that very list, in the
  order of the backend.
\<close>

theorem skill_analysis_function_of_text_and_completion:
  assumes "resolve_resume files1 request1 = Inr resume"
    and "resolve_resume files2 request2 = Inr resume"
    and "fst (backend1 b1 \<lparr>prompt = analysis_prompt resume, temperature = 0.3, num_predict = 800\<rparr>) =
         fst (backend2 b2 \<lparr>prompt = analysis_prompt resume, temperature = 0.3, num_predict = 800\<rparr>)"
  shows "fst (analyze_skills loads backend1 files1 request1 b1) =
         fst (analyze_skills loads backend2 files2 request2 b2) \<and>
         (\<forall>resp t kvs xs.
            fst (backend1 b1 \<lparr>prompt = analysis_prompt resume, temperature = 0.3, num_predict = 800\<rparr>)
              = Inr resp \<and>
            status_code resp = 200 \<and> completion_text loads resp = Inr t \<and>
            loads (json_candidate (strip_fences t)) = Inr (JObj kvs) \<and>
            map_of kvs ''skills'' = Some (JArr xs) \<longrightarrow>
            (\<exists>years roles.
               fst (analyze_skills loads backend1 files1 request1 b1) =
                 Inr (JObj [(''skills'', JArr xs), (''years_experience'', years),
                            (''role_suggestions'', roles)])))"
proof -
  have 1: "fst (analyze_skills loads backend1 files1 request1 b1) =
           fst (analyze_skills loads backend2 files2 request2 b2)"
    by (simp only: analyze_skills_outcome [OF assms(1)] analyze_skills_outcome [OF assms(2)] assms(3))
  have 2: "\<exists>years roles.
             fst (analyze_skills loads backend1 files1 request1 b1) =
               Inr (JObj [(''skills'', JArr xs), (''years_experience'', years),
                          (''role_suggestions'', roles)])"
    if "fst (backend1 b1 \<lparr>prompt = analysis_prompt resume, temperature = 0.3, num_predict = 800\<rparr>)
          = Inr resp"
      and "status_code resp = 200" and "completion_text loads resp = Inr t"
      and "loads (json_candidate (strip_fences t)) = Inr (JObj kvs)"
      and "map_of kvs ''skills'' = Some (JArr xs)"
    for resp t kvs xs
    using that by (simp add: analyze_skills_outcome [OF assms(1)] analyze_parse_object [of loads t kvs])
  from 1 2 show ?thesis by blast
qed

text \<open>
  Two runs: the resume inline and from the store, against backends in different
  states that give the same completion.
\<close>

lemma two_runs:
  \<open>resolve_resume Map.empty
      \<lparr>resume_text = Some ''Ten years of SQL and Python'', resume_id = None,
       job_description = Some ''Data engineer''\<rparr> = Inr ''Ten years of SQL and Python'' \<and>
   resolve_resume (map_of [(''r-17'', ''Ten years of SQL and Python'')])
      \<lparr>resume_text = None, resume_id = Some ''r-17'', job_description = None\<rparr>
      = Inr ''Ten years of SQL and Python'' \<and>
   fst (scripted ([completion_response ''{"skills": ["SQL", "Python"], "role_suggestions": ["Analyst"]}''], [])
          \<lparr>prompt = analysis_prompt ''Ten years of SQL and Python'', temperature = 0.3, num_predict = 800\<rparr>)
     = completion_response ''{"skills": ["SQL", "Python"], "role_suggestions": ["Analyst"]}'' \<and>
   fst (scripted ([completion_response ''{"skills": ["SQL", "Python"], "role_suggestions": ["Analyst"]}'',
                   Inl TimeoutException],
                  [\<lparr>prompt = ''earlier call'', temperature = 0.5, num_predict = 10\<rparr>])
          \<lparr>prompt = analysis_prompt ''Ten years of SQL and Python'', temperature = 0.3, num_predict = 800\<rparr>)
     = completion_response ''{"skills": ["SQL", "Python"], "role_suggestions": ["Analyst"]}'' \<and>
   fst (analyze_skills json_loads scripted Map.empty
      \<lparr>resume_text = Some ''Ten years of SQL and Python'', resume_id = None,
       job_description = Some ''Data engineer''\<rparr>
      ([completion_response ''{"skills": ["SQL", "Python"], "role_suggestions": ["Analyst"]}''], []))
     = Inr (JObj [(''skills'', JArr [JStr ''SQL'', JStr ''Python'']),
                  (''years_experience'', JNull),
                  (''role_suggestions'', JArr [JStr ''Analyst''])])\<close>
  by code_simp

theorem skill_analysis_function_of_text_and_completion_witness:
  \<open>fst (analyze_skills json_loads scripted (map_of [(''r-17'', ''Ten years of SQL and Python'')])
      \<lparr>resume_text = None, resume_id = Some ''r-17'', job_description = None\<rparr>
      ([completion_response ''{"skills": ["SQL", "Python"], "role_suggestions": ["Analyst"]}'',
        Inl TimeoutException],
       [\<lparr>prompt = ''earlier call'', temperature = 0.5, num_predict = 10\<rparr>]))
     = Inr (JObj [(''skills'', JArr [JStr ''SQL'', JStr ''Python'']),
                  (''years_experience'', JNull),
                  (''role_suggestions'', JArr [JStr ''Analyst''])])\<close>
  using skill_analysis_function_of_text_and_completion
          [of Map.empty
              \<open>\<lparr>resume_text = Some ''Ten years of SQL and Python'', resume_id = None,
                 job_description = Some ''Data engineer''\<rparr>\<close>
              \<open>''Ten years of SQL and Python''\<close>
              \<open>map_of [(''r-17'', ''Ten years of SQL and Python'')]\<close>
              \<open>\<lparr>resume_text = None, resume_id = Some ''r-17'', job_description = None\<rparr>\<close>
              scripted
              \<open>([completion_response ''{"skills": ["SQL", "Python"], "role_suggestions": ["Analyst"]}''], [])\<close>
              scripted
              \<open>([completion_response ''{"skills": ["SQL", "Python"], "role_suggestions": ["Analyst"]}'',
                 Inl TimeoutException],
                [\<lparr>prompt = ''earlier call'', temperature = 0.5, num_predict = 10\<rparr>])\<close>
              json_loads]
        two_runs
  by metis

section \<open>The task stage\<close>

lemma backfill_empty: "skills \<noteq> [] \<Longrightarrow> backfill (JArr []) skills = Inr (JArr (map fallback_group skills))"
  by (simp add: backfill_def)

lemma backfill_truthy: "truthy w \<Longrightarrow> backfill w skills = Inr w"
  by (simp add: backfill_def)

lemma fallback_tasks_length: "length (fallback_tasks skill) = 7"
  by (simp add: fallback_tasks_def)

lemma task_stages_200:
  assumes "status_code resp = 200" and "completion_text loads resp = Inr task_text"
  shows "weekly_task_stage loads resp skills =
           backfill (extract_field loads task_text ''weekly_tasks'' (JArr [])) skills"
    and "gap_task_stage loads resp skills =
           backfill (extract_field loads task_text ''weekly_tasks'' (JArr [])) skills"
  using assms by (simp_all add: weekly_task_stage_def gap_task_stage_def)

lemma weekly_with_missing_skills:
  assumes "missing_skills request = Some ms" and "ms \<noteq> []" and "list_all is_str ms"
    and "backend b0 \<lparr>prompt = task_prompt (map the_str ms), temperature = 0.5, num_predict = 1500\<rparr>
           = (Inr resp, b1)"
    and "weekly_task_stage loads resp (map the_str ms) = Inr weekly_tasks"
  shows "weekly_learning_task_generator loads backend files request b0 =
           (Inr (gap_result (JArr []) (JArr ms) weekly_tasks), b1)"
  using assms by (simp add: weekly_learning_task_generator_def)

text \<open>
  C2, as the code has it. Take a non-empty list of skills and a task call that answered
  with status 200 and a completion. When no non-empty \<^verbatim>\<open>weekly_tasks\<close> is extracted from
  the completion and the value left is the empty list (the completion cannot be parsed,
  has no such field, or has an empty list), the task stage of both orchestrators
  returns one group per skill, in the order of the skills, each with the seven fallback
  tasks; so does the stage of \<^verbatim>\<open>skill_gap_analysis\<close> when the status is not 200. A
  truthy \<^verbatim>\<open>weekly_tasks\<close> of the model is returned as it is: its groups are not matched
  against the skills, and its task lists are not cut to seven. For
  \<^verbatim>\<open>weekly_learning_task_generator\<close> the whole response in the fallback case is given.
\<close>

theorem task_stage_groups:
  assumes "skills \<noteq> []" and "status_code resp = 200"
    and "completion_text loads resp = Inr task_text"
  shows "(extract_field loads task_text ''weekly_tasks'' (JArr []) = JArr [] \<longrightarrow>
            weekly_task_stage loads resp skills = Inr (JArr (map fallback_group skills)) \<and>
            gap_task_stage loads resp skills = Inr (JArr (map fallback_group skills))) \<and>
         (truthy (extract_field loads task_text ''weekly_tasks'' (JArr [])) \<longrightarrow>
            weekly_task_stage loads resp skills =
              Inr (extract_field loads task_text ''weekly_tasks'' (JArr [])) \<and>
            gap_task_stage loads resp skills =
              Inr (extract_field loads task_text ''weekly_tasks'' (JArr []))) \<and>
         (status_code other \<noteq> 200 \<longrightarrow>
            gap_task_stage loads other skills = Inr (JArr (map fallback_group skills))) \<and>
         length (map fallback_group skills) = length skills \<and>
         (\<forall>i < length skills.
            map fallback_group skills ! i =
              JObj [(''skill'', JStr (skills ! i)),
                    (''tasks'', JArr (map JStr (fallback_tasks (skills ! i))))] \<and>
            length (fallback_tasks (skills ! i)) = 7) \<and>
         (missing_skills request = Some ms \<and> list_all is_str ms \<and> skills = map the_str ms \<and>
          backend b0 \<lparr>prompt = task_prompt skills, temperature = 0.5, num_predict = 1500\<rparr>
            = (Inr resp, b1) \<and>
          extract_field loads task_text ''weekly_tasks'' (JArr []) = JArr [] \<longrightarrow>
            weekly_learning_task_generator loads backend files request b0 =
              (Inr (JObj [(''extracted_skills'', JArr []),
                          (''missing_skills'', JArr ms),
                          (''weekly_tasks'', JArr (map fallback_group skills))]), b1))"
proof -
  note st = task_stages_200 [OF assms(2,3), of skills]
  have 1: "extract_field loads task_text ''weekly_tasks'' (JArr []) = JArr [] \<longrightarrow>
            weekly_task_stage loads resp skills = Inr (JArr (map fallback_group skills)) \<and>
            gap_task_stage loads resp skills = Inr (JArr (map fallback_group skills))"
    using st assms(1) by (simp add: backfill_empty)
  have 2: "truthy (extract_field loads task_text ''weekly_tasks'' (JArr [])) \<longrightarrow>
            weekly_task_stage loads resp skills =
              Inr (extract_field loads task_text ''weekly_tasks'' (JArr [])) \<and>
            gap_task_stage loads resp skills =
              Inr (extract_field loads task_text ''weekly_tasks'' (JArr []))"
    using st by (simp add: backfill_truthy)
  have 3: "status_code other \<noteq> 200 \<longrightarrow>
            gap_task_stage loads other skills = Inr (JArr (map fallback_group skills))"
    using assms(1) by (simp add: gap_task_stage_def backfill_empty)
  have 4: "length (map fallback_group skills) = length skills"
    by simp
  have 5: "\<forall>i < length skills.
            map fallback_group skills ! i =
              JObj [(''skill'', JStr (skills ! i)),
                    (''tasks'', JArr (map JStr (fallback_tasks (skills ! i))))] \<and>
            length (fallback_tasks (skills ! i)) = 7"
    by (simp add: fallback_group_def fallback_tasks_length)
  have 6: "missing_skills request = Some ms \<and> list_all is_str ms \<and> skills = map the_str ms \<and>
          backend b0 \<lparr>prompt = task_prompt skills, temperature = 0.5, num_predict = 1500\<rparr>
            = (Inr resp, b1) \<and>
          extract_field loads task_text ''weekly_tasks'' (JArr []) = JArr [] \<longrightarrow>
            weekly_learning_task_generator loads backend files request b0 =
              (Inr (JObj [(''extracted_skills'', JArr []),
                          (''missing_skills'', JArr ms),
                          (''weekly_tasks'', JArr (map fallback_group skills))]), b1)"
  proof
    assume a: "missing_skills request = Some ms \<and> list_all is_str ms \<and> skills = map the_str ms \<and>
          backend b0 \<lparr>prompt = task_prompt skills, temperature = 0.5, num_predict = 1500\<rparr>
            = (Inr resp, b1) \<and>
          extract_field loads task_text ''weekly_tasks'' (JArr []) = JArr []"
    then have m: "missing_skills request = Some ms" and l: "list_all is_str ms"
      and s: "skills = map the_str ms"
      and e: "extract_field loads task_text ''weekly_tasks'' (JArr []) = JArr []"
      by simp_all
    from a s have b: "backend b0 \<lparr>prompt = task_prompt (map the_str ms), temperature = 0.5,
                        num_predict = 1500\<rparr> = (Inr resp, b1)"
      by simp
    have ms: "ms \<noteq> []"
      using assms(1) s by auto
    have w: "weekly_task_stage loads resp (map the_str ms) =
               Inr (JArr (map fallback_group (map the_str ms)))"
      using 1 e unfolding s by blast
    have "weekly_learning_task_generator loads backend files request b0 =
            (Inr (gap_result (JArr []) (JArr ms) (JArr (map fallback_group (map the_str ms)))), b1)"
      using m ms l b w by (rule weekly_with_missing_skills)
    then show "weekly_learning_task_generator loads backend files request b0 =
              (Inr (JObj [(''extracted_skills'', JArr []),
                          (''missing_skills'', JArr ms),
                          (''weekly_tasks'', JArr (map fallback_group skills))]), b1)"
      unfolding s by (simp add: gap_result_def)
  qed
  from 1 2 3 4 5 6 show ?thesis by blast
qed


text \<open>
  The scenario of the specification: one missing skill, and a completion of the task
  call that cannot be parsed.
\<close>

lemma kubernetes_run:
  \<open>missing_skills \<lparr>resume_text = None, resume_id = None, missing_skills = Some [JStr ''Kubernetes'']\<rparr>
     = Some [JStr ''Kubernetes''] \<and>
   scripted ([completion_response ''I cannot help with that.''], [])
        \<lparr>prompt = task_prompt [''Kubernetes''], temperature = 0.5, num_predict = 1500\<rparr>
     = (Inr \<lparr>status_code = 200, response_text = ''{"response": "I cannot help with that."}''\<rparr>,
        ([], [\<lparr>prompt = task_prompt [''Kubernetes''], temperature = 0.5, num_predict = 1500\<rparr>])) \<and>
   completion_text json_loads
        \<lparr>status_code = 200, response_text = ''{"response": "I cannot help with that."}''\<rparr>
     = Inr ''I cannot help with that.'' \<and>
   extract_field json_loads ''I cannot help with that.'' ''weekly_tasks'' (JArr []) = JArr []\<close>
  by code_simp

theorem task_stage_groups_witness:
  \<open>weekly_learning_task_generator json_loads scripted Map.empty
     \<lparr>resume_text = None, resume_id = None, missing_skills = Some [JStr ''Kubernetes'']\<rparr>
     ([completion_response ''I cannot help with that.''], []) =
     (Inr (JObj [(''extracted_skills'', JArr []),
                 (''missing_skills'', JArr [JStr ''Kubernetes'']),
                 (''weekly_tasks'',
                  JArr [JObj [(''skill'', JStr ''Kubernetes''),
                              (''tasks'', JArr (map JStr (fallback_tasks ''Kubernetes'')))]])]),
      ([], [\<lparr>prompt = task_prompt [''Kubernetes''], temperature = 0.5, num_predict = 1500\<rparr>])) \<and>
   length (fallback_tasks ''Kubernetes'') = 7\<close>
  using task_stage_groups
          [of \<open>[''Kubernetes'']\<close>
              \<open>\<lparr>status_code = 200, response_text = ''{"response": "I cannot help with that."}''\<rparr>\<close>
              json_loads \<open>''I cannot help with that.''\<close>
              \<open>\<lparr>status_code = 500, response_text = []\<rparr>\<close>
              \<open>\<lparr>resume_text = None, resume_id = None, missing_skills = Some [JStr ''Kubernetes'']\<rparr>\<close>
              \<open>[JStr ''Kubernetes'']\<close> scripted
              \<open>([completion_response ''I cannot help with that.''], [])\<close>
              \<open>([], [\<lparr>prompt = task_prompt [''Kubernetes''], temperature = 0.5, num_predict = 1500\<rparr>])\<close>
              Map.empty]
        kubernetes_run
  by (simp add: fallback_group_def)

text \<open>
  Two missing skills, and a completion with one group that has no tasks: the group is
  returned as it is, the second skill gets none.
\<close>

theorem model_groups_returned_unchanged:
  \<open>fst (weekly_learning_task_generator json_loads scripted Map.empty
     \<lparr>resume_text = None, resume_id = None,
      missing_skills = Some [JStr ''Docker'', JStr ''Kubernetes'']\<rparr>
     ([completion_response ''{"weekly_tasks": [{"skill": "Docker", "tasks": []}]}''], [])) =
     Inr (JObj [(''extracted_skills'', JArr []),
                (''missing_skills'', JArr [JStr ''Docker'', JStr ''Kubernetes'']),
                (''weekly_tasks'',
                 JArr [JObj [(''skill'', JStr ''Docker''), (''tasks'', JArr [])]])])\<close>
  by code_simp

end
